theory Spec2Isabelle
  imports Complex_Main "HOL-Library.Multiset" "HOL-Library.Sublist" "HOL-Library.Char_ord" "HOL-Library.List_Lexorder"
begin

section \<open>svg-writer: shapes, layout and document serialization\<close>

text \<open>
  A shallow embedding of \<^verbatim>\<open>include/svg_writer/svg_writer.hpp\<close>.

  \<^item> A C++ \<^verbatim>\<open>double\<close> is a \<^typ>\<open>real\<close>: rounding, infinities and NaNs are outside
    the model, so the "Infs or NaNs provided" diagnostics of the constructors never fire.
  \<^item> \<^verbatim>\<open>stream << double\<close> is the standard library's number formatting, not code of this
    repository: every serializer takes it as the parameter \<open>fmt\<close>.
  \<^item> \<^verbatim>\<open>std::string\<close> is \<^typ>\<open>string\<close>; \<^verbatim>\<open>operator<\<close> on strings is the lexicographic
    order on bytes.
  \<^item> An exception is a value \<open>Inl e\<close> of a sum type.
\<close>

subsection \<open>Utility XML/string functions\<close>

type_synonym fmt = "real \<Rightarrow> string"

datatype error = Invalid_argument | Runtime_error

definition tab :: string where
  "tab = [CHR 0x09]"

definition nl :: string where
  "nl = [CHR 0x0A]"

text \<open>\<^verbatim>\<open>attribute(name, value, unit)\<close>; \<open>v\<close> is the value as the stream prints it.\<close>

definition attribute :: "string \<Rightarrow> string \<Rightarrow> string \<Rightarrow> string" where
  \<open>attribute attribute_name v unit = attribute_name @ ''="'' @ v @ unit @ ''" ''\<close>

definition elemStart :: "string \<Rightarrow> bool \<Rightarrow> string" where
  "elemStart element_name single =
     tab @ ''<'' @ element_name @ (if single then ''>'' @ nl else '' '')"

definition elemEnd :: "string \<Rightarrow> string" where
  "elemEnd element_name = ''</'' @ element_name @ ''>'' @ nl"

definition emptyElemEnd :: string where
  "emptyElemEnd = ''/>'' @ nl"

text \<open>
  \<^verbatim>\<open>std::equal(ending.rbegin(), ending.rend(), value.rbegin())\<close> compares the reversed
  ending with the same number of characters of the reversed value.
\<close>

definition ends_with :: "string \<Rightarrow> string \<Rightarrow> bool" where
  "ends_with v ending =
     (if length ending > length v then False
      else rev ending = take (length ending) (rev v))"

text \<open>\<^verbatim>\<open>equal(a, b, eps = 1e-10)\<close>\<close>

definition equal_eps :: "real \<Rightarrow> real \<Rightarrow> bool" where
  "equal_eps a b = (\<bar>a - b\<bar> < 1 / 10 ^ 10)"

text \<open>Decimal output of the stream for \<^verbatim>\<open>unsigned\<close> and \<^verbatim>\<open>int\<close> values.\<close>

definition digit_char :: "nat \<Rightarrow> char" where
  "digit_char d = ''0123456789'' ! d"

function show_nat :: "nat \<Rightarrow> string" where
  "show_nat n = (if n < 10 then [digit_char n] else show_nat (n div 10) @ [digit_char (n mod 10)])"
  by pat_completeness auto
termination
  by (relation "measure id") auto

declare show_nat.simps [simp del]

definition show_int :: "int \<Rightarrow> string" where
  "show_int i = (if i < 0 then ''-'' @ show_nat (nat (- i)) else show_nat (nat i))"

subsection \<open>Geometry and layout\<close>

record dimensions =
  width :: real
  height :: real

definition Dimensions :: "real \<Rightarrow> real \<Rightarrow> dimensions" where
  "Dimensions w h = \<lparr>width = w, height = h\<rparr>"

text \<open>\<^verbatim>\<open>Dimensions(double combined = 0)\<close>\<close>

definition Dimensions1 :: "real \<Rightarrow> dimensions" where
  "Dimensions1 combined = \<lparr>width = combined, height = combined\<rparr>"

record point =
  px :: real
  py :: real

definition Point :: "real \<Rightarrow> real \<Rightarrow> point" where
  "Point x y = \<lparr>px = x, py = y\<rparr>"

text \<open>
  \<^verbatim>\<open>getMinPoint\<close> and \<^verbatim>\<open>getMaxPoint\<close> return an invalid \<^verbatim>\<open>optional\<close> on an empty vector;
  the loop starts at index 0 with \<open>min = points[0]\<close>.
\<close>

definition min_step :: "point \<Rightarrow> point \<Rightarrow> point" where
  "min_step m p =
     \<lparr>px = (if px p < px m then px p else px m), py = (if py p < py m then py p else py m)\<rparr>"

definition max_step :: "point \<Rightarrow> point \<Rightarrow> point" where
  "max_step m p =
     \<lparr>px = (if px p > px m then px p else px m), py = (if py p > py m then py p else py m)\<rparr>"

definition getMinPoint :: "point list \<Rightarrow> point option" where
  "getMinPoint points = (case points of [] \<Rightarrow> None | p # _ \<Rightarrow> Some (foldl min_step p points))"

definition getMaxPoint :: "point list \<Rightarrow> point option" where
  "getMaxPoint points = (case points of [] \<Rightarrow> None | p # _ \<Rightarrow> Some (foldl max_step p points))"

datatype origin = TopLeft | BottomLeft | TopRight | BottomRight

record layout =
  dimensions :: dimensions
  scale :: real
  origin :: origin
  origin_offset :: point

definition Layout :: "dimensions \<Rightarrow> origin \<Rightarrow> real \<Rightarrow> point \<Rightarrow> layout" where
  "Layout dims orig dim_scale orig_offset =
     \<lparr>dimensions = dims, scale = dim_scale, origin = orig, origin_offset = orig_offset\<rparr>"

text \<open>\<^verbatim>\<open>Layout()\<close>: 400 x 300, bottom-left origin, scale 1, no offset.\<close>

definition Layout_default :: layout where
  "Layout_default = Layout (Dimensions 400 300) BottomLeft 1 (Point 0 0)"

definition translateX :: "real \<Rightarrow> layout \<Rightarrow> real" where
  "translateX x l =
     (if origin l = BottomRight \<or> origin l = TopRight
      then width (dimensions l) - ((x + px (origin_offset l)) * scale l)
      else (px (origin_offset l) + x) * scale l)"

definition translateY :: "real \<Rightarrow> layout \<Rightarrow> real" where
  "translateY y l =
     (if origin l = BottomLeft \<or> origin l = BottomRight
      then height (dimensions l) - ((y + py (origin_offset l)) * scale l)
      else (py (origin_offset l) + y) * scale l)"

definition translateScale :: "real \<Rightarrow> layout \<Rightarrow> real" where
  "translateScale dimension l = dimension * scale l"

text \<open>\<^verbatim>\<open>Identifiable::serializeId\<close>\<close>

definition serializeId :: "string \<Rightarrow> string" where
  "serializeId ident = (if ident = [] then [] else attribute ''id'' ident [])"

subsection \<open>Style primitives\<close>

datatype color_defaults =
  Transparent | Aqua | Black | Gray | Blue | Brown | Cyan | Fuchsia | Green | Lime | Magenta
  | Orange | Purple | Red | Silver | White | Yellow | Random

record color =
  transparent :: bool
  red :: int
  green :: int
  blue :: int

definition assign :: "int \<Rightarrow> int \<Rightarrow> int \<Rightarrow> color" where
  "assign r g b = \<lparr>transparent = False, red = r, green = g, blue = b\<rparr>"

text \<open>\<^verbatim>\<open>Color(unsigned char r, unsigned char g, unsigned char b)\<close>\<close>

definition Color_rgb :: "nat \<Rightarrow> nat \<Rightarrow> nat \<Rightarrow> color" where
  "Color_rgb r g b = assign (int (r mod 256)) (int (g mod 256)) (int (b mod 256))"

text \<open>
  \<^verbatim>\<open>Color(Defaults color)\<close>. The three draws of \<^verbatim>\<open>rand()\<close> for \<open>Random\<close> are the
  parameter \<open>rnd\<close>.
\<close>

fun Color_of :: "nat \<times> nat \<times> nat \<Rightarrow> color_defaults \<Rightarrow> color" where
  "Color_of rnd Aqua = assign 0 255 255"
| "Color_of rnd Black = assign 0 0 0"
| "Color_of rnd Gray = assign 127 127 127"
| "Color_of rnd Blue = assign 0 0 255"
| "Color_of rnd Brown = assign 165 42 42"
| "Color_of rnd Cyan = assign 0 255 255"
| "Color_of rnd Fuchsia = assign 255 0 255"
| "Color_of rnd Green = assign 0 128 0"
| "Color_of rnd Lime = assign 0 255 0"
| "Color_of rnd Magenta = assign 255 0 255"
| "Color_of rnd Orange = assign 255 165 0"
| "Color_of rnd Purple = assign 128 0 128"
| "Color_of rnd Red = assign 255 0 0"
| "Color_of rnd Silver = assign 192 192 192"
| "Color_of rnd White = assign 255 255 255"
| "Color_of rnd Yellow = assign 255 255 0"
| "Color_of (r, g, b) Random = assign (int (r mod 256)) (int (g mod 256)) (int (b mod 256))"
| "Color_of rnd Transparent = \<lparr>transparent = True, red = 0, green = 0, blue = 0\<rparr>"

text \<open>The named colours need no random draws.\<close>

definition Color :: "color_defaults \<Rightarrow> color" where
  "Color c = Color_of (0, 0, 0) c"

definition Color_toString :: "color \<Rightarrow> string" where
  "Color_toString c =
     (if transparent c then ''none''
      else ''rgb('' @ show_int (red c) @ '','' @ show_int (green c) @ '','' @ show_int (blue c)
           @ '')'')"

record fill =
  fill_color :: color
  fill_opacity :: real

text \<open>\<^verbatim>\<open>Fill(Color::Defaults fill_color, double opacity_level = 1.0)\<close>\<close>

definition Fill :: "color \<Rightarrow> real \<Rightarrow> fill" where
  "Fill c opacity_level = \<lparr>fill_color = c, fill_opacity = opacity_level\<rparr>"

text \<open>\<^verbatim>\<open>Fill(Color fill_color = Color::Transparent)\<close>\<close>

definition Fill_default :: fill where
  "Fill_default = Fill (Color Transparent) 1"

definition Fill_toString :: "fmt \<Rightarrow> fill \<Rightarrow> layout \<Rightarrow> string" where
  "Fill_toString f fl l =
     attribute ''fill'' (Color_toString (fill_color fl)) []
     @ (if fill_opacity fl < 1 then attribute ''fill-opacity'' (f (fill_opacity fl)) [] else [])"

record stroke =
  stroke_width :: real
  stroke_color :: color
  nonScaling :: bool
  miterlimit :: real
  dasharray :: "nat list"
  dashoffset :: nat
  stroke_opacity :: real

text \<open>\<^verbatim>\<open>Stroke()\<close>: width -1, transparent, no dashes, opaque.\<close>

definition Stroke_default :: stroke where
  "Stroke_default =
     \<lparr>stroke_width = - 1, stroke_color = Color Transparent, nonScaling = False,
      miterlimit = - 1, dasharray = [], dashoffset = 0, stroke_opacity = 1\<rparr>"

text \<open>\<^verbatim>\<open>Stroke(w, stroke_color)\<close> with the remaining defaults.\<close>

definition Stroke2 :: "real \<Rightarrow> color \<Rightarrow> stroke" where
  "Stroke2 w c = Stroke_default\<lparr>stroke_width := w, stroke_color := c\<rparr>"

fun dasharray_string :: "nat list \<Rightarrow> string" where
  "dasharray_string [] = []"
| "dasharray_string [d] = show_nat d"
| "dasharray_string (d # ds) = show_nat d @ '','' @ dasharray_string ds"

definition Stroke_toString :: "fmt \<Rightarrow> stroke \<Rightarrow> layout \<Rightarrow> string" where
  "Stroke_toString f s l =
     (if stroke_width s < 0 then []
      else attribute ''stroke-width'' (f (translateScale (stroke_width s) l)) []
        @ attribute ''stroke'' (Color_toString (stroke_color s)) []
        @ (if miterlimit s \<ge> 0
           then attribute ''stroke-miterlimit'' (f (translateScale (miterlimit s) l)) [] else [])
        @ attribute ''stroke-dashoffset'' (f (translateScale (real (dashoffset s)) l)) []
        @ (if dasharray s \<noteq> []
           then attribute ''stroke-dasharray'' (dasharray_string (dasharray s)) [] else [])
        @ (if stroke_opacity s < 1
           then attribute ''stroke-opacity'' (f (stroke_opacity s)) [] else [])
        @ (if nonScaling s then attribute ''vector-effect'' ''non-scaling-stroke'' [] else []))"

record font =
  font_size :: real
  family :: string

definition Font_default :: font where
  "Font_default = \<lparr>font_size = 12, family = ''Verdana''\<rparr>"

definition Font_toString :: "fmt \<Rightarrow> font \<Rightarrow> layout \<Rightarrow> string" where
  "Font_toString f fn l =
     attribute ''font-size'' (f (translateScale (font_size fn) l)) []
     @ attribute ''font-family'' (family fn) []"

subsection \<open>Shapes\<close>

text \<open>The members of \<^verbatim>\<open>Shape\<close> together with the identifier of \<^verbatim>\<open>Identifiable\<close>.\<close>

record shape_base =
  ident :: string
  z :: int
  stroke :: stroke
  style :: string
  visible :: bool

text \<open>\<^verbatim>\<open>Shape(stroke_style = Stroke(), z_order = 0, shape_id = {})\<close>\<close>

definition Shape :: "stroke \<Rightarrow> shape_base" where
  "Shape stroke_style = \<lparr>ident = [], z = 0, stroke = stroke_style, style = [], visible = True\<rparr>"

definition Shape_toString :: "fmt \<Rightarrow> shape_base \<Rightarrow> layout \<Rightarrow> string" where
  "Shape_toString f b l =
     Stroke_toString f (stroke b) l
     @ (if style b \<noteq> [] then attribute ''style'' (style b) [] else [])
     @ (if \<not> visible b then attribute ''visibility'' ''hidden'' [] else [])"

definition SurfaceShape_toString :: "fmt \<Rightarrow> shape_base \<Rightarrow> fill \<Rightarrow> layout \<Rightarrow> string" where
  "SurfaceShape_toString f b fl l = Shape_toString f b l @ Fill_toString f fl l"

datatype text_anchor = Anchor_Start | Anchor_Middle | Anchor_End | Anchor_None

datatype dominant_baseline =
  TextBottom | Alphabetic | Ideographic | Middle | Central | Mathematical | Hanging | TextTop
  | Baseline_None

text \<open>
  The shape classes. A \<^verbatim>\<open>const Marker *\<close> of \<^verbatim>\<open>Markerable\<close> is the marker it points to at
  the time of serialization, \<open>None\<close> for the null pointer. A \<^verbatim>\<open>LineChart\<close> holds its
  polylines by value; a \<^verbatim>\<open>Marker\<close> owns clones of arbitrary shapes.
\<close>

datatype shape =
    Circle shape_base fill point real
  | Elipse shape_base fill point real real
  | Rectangle shape_base fill point real real real real
  | Line shape_base markerable point point
  | Polygon shape_base fill "point list"
  | Path shape_base fill "point list list"
  | Polyline_shape polyline
  | Text shape_base fill point string font text_anchor dominant_baseline
  | LineChart shape_base stroke dimensions "polyline list"
and polyline = Polyline shape_base markerable "point list"
and markerable = Markerable "marker option" "marker option" "marker option"
and marker = Marker string real real real real string "shape list"

text \<open>Constructors with the defaults of the source.\<close>

definition Markerable_default :: markerable where
  "Markerable_default = Markerable None None None"

text \<open>\<^verbatim>\<open>Circle(center_pos, diameter, fill_style, stroke_style)\<close> stores \<open>diameter / 2\<close>.\<close>

definition new_Circle :: "point \<Rightarrow> real \<Rightarrow> fill \<Rightarrow> stroke \<Rightarrow> shape" where
  "new_Circle center_pos diameter fill_style stroke_style =
     Circle (Shape stroke_style) fill_style center_pos (diameter / 2)"

definition new_Elipse :: "point \<Rightarrow> real \<Rightarrow> real \<Rightarrow> fill \<Rightarrow> stroke \<Rightarrow> shape" where
  "new_Elipse center_pos w h fill_style stroke_style =
     Elipse (Shape stroke_style) fill_style center_pos (w / 2) (h / 2)"

definition new_Rectangle ::
  "point \<Rightarrow> real \<Rightarrow> real \<Rightarrow> fill \<Rightarrow> stroke \<Rightarrow> real \<Rightarrow> real \<Rightarrow> shape" where
  "new_Rectangle upper_left_corner w h fill_style stroke_style rx_corner ry_corner =
     Rectangle (Shape stroke_style) fill_style upper_left_corner w h rx_corner ry_corner"

definition new_Line :: "point \<Rightarrow> point \<Rightarrow> stroke \<Rightarrow> shape" where
  "new_Line start_pt end_pt stroke_style =
     Line (Shape stroke_style) Markerable_default start_pt end_pt"

definition new_Polygon :: "point list \<Rightarrow> fill \<Rightarrow> stroke \<Rightarrow> shape" where
  "new_Polygon pts fill_style stroke_style = Polygon (Shape stroke_style) fill_style pts"

text \<open>\<^verbatim>\<open>Path(pts, fill_style, stroke_style)\<close>: one subpath holding the points.\<close>

definition new_Path :: "point list \<Rightarrow> fill \<Rightarrow> stroke \<Rightarrow> shape" where
  "new_Path pts fill_style stroke_style = Path (Shape stroke_style) fill_style [pts]"

definition new_Polyline :: "point list \<Rightarrow> stroke \<Rightarrow> polyline" where
  "new_Polyline pts stroke_style = Polyline (Shape stroke_style) Markerable_default pts"

definition new_Text ::
  "point \<Rightarrow> string \<Rightarrow> fill \<Rightarrow> font \<Rightarrow> stroke \<Rightarrow> text_anchor \<Rightarrow> dominant_baseline \<Rightarrow> shape" where
  "new_Text origin_pos text_content fill_style font_style stroke_style align baseline =
     Text (Shape stroke_style) fill_style origin_pos text_content font_style align baseline"

text \<open>
  \<^verbatim>\<open>LineChart(chart_margin = Dimensions(), axis_stroke_style = Stroke(0.5, Color::Purple))\<close>
\<close>

definition new_LineChart :: "dimensions \<Rightarrow> stroke \<Rightarrow> shape" where
  "new_LineChart chart_margin axis_stroke_style =
     LineChart (Shape Stroke_default) axis_stroke_style chart_margin []"

definition LineChart_default :: shape where
  "LineChart_default = new_LineChart (Dimensions1 0) (Stroke2 (1 / 2) (Color Purple))"

text \<open>Access to the \<^verbatim>\<open>Shape\<close> members of any variant.\<close>

fun polyline_base :: "polyline \<Rightarrow> shape_base" where
  "polyline_base (Polyline b m pts) = b"

fun points :: "polyline \<Rightarrow> point list" where
  "points (Polyline b m pts) = pts"

fun base_of :: "shape \<Rightarrow> shape_base" where
  "base_of (Circle b fl c r) = b"
| "base_of (Elipse b fl c rw rh) = b"
| "base_of (Rectangle b fl e w h rx ry) = b"
| "base_of (Line b m p1 p2) = b"
| "base_of (Polygon b fl pts) = b"
| "base_of (Path b fl paths) = b"
| "base_of (Polyline_shape pl) = polyline_base pl"
| "base_of (Text b fl p content fn a bl) = b"
| "base_of (LineChart b axis margin pls) = b"

fun polyline_map_base :: "(shape_base \<Rightarrow> shape_base) \<Rightarrow> polyline \<Rightarrow> polyline" where
  "polyline_map_base g (Polyline b m pts) = Polyline (g b) m pts"

fun map_base :: "(shape_base \<Rightarrow> shape_base) \<Rightarrow> shape \<Rightarrow> shape" where
  "map_base g (Circle b fl c r) = Circle (g b) fl c r"
| "map_base g (Elipse b fl c rw rh) = Elipse (g b) fl c rw rh"
| "map_base g (Rectangle b fl e w h rx ry) = Rectangle (g b) fl e w h rx ry"
| "map_base g (Line b m p1 p2) = Line (g b) m p1 p2"
| "map_base g (Polygon b fl pts) = Polygon (g b) fl pts"
| "map_base g (Path b fl paths) = Path (g b) fl paths"
| "map_base g (Polyline_shape pl) = Polyline_shape (polyline_map_base g pl)"
| "map_base g (Text b fl p content fn a bl) = Text (g b) fl p content fn a bl"
| "map_base g (LineChart b axis margin pls) = LineChart (g b) axis margin pls"

text \<open>The public member \<open>z\<close> and the accessors of \<^verbatim>\<open>Shape\<close> and \<^verbatim>\<open>Identifiable\<close>.\<close>

definition shape_z :: "shape \<Rightarrow> int" where
  "shape_z s = z (base_of s)"

definition set_z :: "int \<Rightarrow> shape \<Rightarrow> shape" where
  "set_z k s = map_base (\<lambda>b. b\<lparr>z := k\<rparr>) s"

definition getStroke :: "shape \<Rightarrow> stroke" where
  "getStroke s = stroke (base_of s)"

definition setStroke :: "stroke \<Rightarrow> shape \<Rightarrow> shape" where
  "setStroke st s = map_base (\<lambda>b. b\<lparr>stroke := st\<rparr>) s"

definition setStyle :: "string \<Rightarrow> shape \<Rightarrow> shape" where
  "setStyle new_style s = map_base (\<lambda>b. b\<lparr>style := new_style\<rparr>) s"

definition setId :: "string \<Rightarrow> shape \<Rightarrow> shape" where
  "setId new_id s = map_base (\<lambda>b. b\<lparr>ident := new_id\<rparr>) s"

definition hide :: "shape \<Rightarrow> shape" where
  "hide s = map_base (\<lambda>b. b\<lparr>visible := False\<rparr>) s"

subsection \<open>Markers referenced by lines and polylines\<close>

fun getId :: "marker \<Rightarrow> string" where
  "getId (Marker i mw mh rx ry orient shapes) = i"

definition valid :: "marker \<Rightarrow> bool" where
  "valid m = (getId m \<noteq> [])"

text \<open>One reference of \<^verbatim>\<open>Markerable::toString\<close>: nothing for a null or invalid marker.\<close>

definition marker_ref :: "string \<Rightarrow> marker option \<Rightarrow> string" where
  \<open>marker_ref name mo =
     (case mo of
        None \<Rightarrow> []
      | Some m \<Rightarrow> if valid m then name @ ''="url(#'' @ getId m @ '')" '' else [])\<close>

fun Markerable_toString :: "markerable \<Rightarrow> string" where
  "Markerable_toString (Markerable marker_start marker_mid marker_end) =
     marker_ref ''marker-start'' marker_start
     @ marker_ref ''marker-mid'' marker_mid
     @ marker_ref ''marker-end'' marker_end"

text \<open>
  \<^verbatim>\<open>internal::MarkerSet\<close> is a \<^verbatim>\<open>std::set\<close> ordered by identifier: a list sorted by
  identifier, without two markers of the same identifier. \<^verbatim>\<open>insert\<close> keeps the element
  already present when the identifiers are equal.
\<close>

definition MarkerSet_insert :: "marker \<Rightarrow> marker list \<Rightarrow> marker list" where
  "MarkerSet_insert m ms =
     (if list_ex (\<lambda>m'. getId m' = getId m) ms then ms else insort_key getId m ms)"

definition insert_if_valid :: "marker option \<Rightarrow> marker list \<Rightarrow> marker list" where
  "insert_if_valid mo ms =
     (case mo of None \<Rightarrow> ms | Some m \<Rightarrow> if valid m then MarkerSet_insert m ms else ms)"

fun getUsedMarkers :: "markerable \<Rightarrow> marker list" where
  "getUsedMarkers (Markerable marker_start marker_mid marker_end) =
     insert_if_valid marker_end (insert_if_valid marker_mid (insert_if_valid marker_start []))"

text \<open>
  \<^verbatim>\<open>setStartMarker\<close>, \<^verbatim>\<open>setMidMarker\<close> and \<^verbatim>\<open>setEndMarker\<close> of \<^verbatim>\<open>Markerable\<close>, which only
  \<^verbatim>\<open>Line\<close> and \<^verbatim>\<open>Polyline\<close> inherit.
\<close>

fun Markerable_setStartMarker :: "marker \<Rightarrow> markerable \<Rightarrow> markerable" where
  "Markerable_setStartMarker m (Markerable marker_start marker_mid marker_end) =
     Markerable (Some m) marker_mid marker_end"

fun Markerable_setMidMarker :: "marker \<Rightarrow> markerable \<Rightarrow> markerable" where
  "Markerable_setMidMarker m (Markerable marker_start marker_mid marker_end) =
     Markerable marker_start (Some m) marker_end"

fun Markerable_setEndMarker :: "marker \<Rightarrow> markerable \<Rightarrow> markerable" where
  "Markerable_setEndMarker m (Markerable marker_start marker_mid marker_end) =
     Markerable marker_start marker_mid (Some m)"

fun map_markerable :: "(markerable \<Rightarrow> markerable) \<Rightarrow> shape \<Rightarrow> shape" where
  "map_markerable g (Line b m p1 p2) = Line b (g m) p1 p2"
| "map_markerable g (Polyline_shape (Polyline b m pts)) = Polyline_shape (Polyline b (g m) pts)"
| "map_markerable g s = s"

definition setStartMarker :: "marker \<Rightarrow> shape \<Rightarrow> shape" where
  "setStartMarker m s = map_markerable (Markerable_setStartMarker m) s"

definition setMidMarker :: "marker \<Rightarrow> shape \<Rightarrow> shape" where
  "setMidMarker m s = map_markerable (Markerable_setMidMarker m) s"

definition setEndMarker :: "marker \<Rightarrow> shape \<Rightarrow> shape" where
  "setEndMarker m s = map_markerable (Markerable_setEndMarker m) s"

subsection \<open>Serialization of the shapes\<close>

definition point_string :: "fmt \<Rightarrow> layout \<Rightarrow> point \<Rightarrow> string" where
  "point_string f l p = f (translateX (px p) l) @ '','' @ f (translateY (py p) l) @ '' ''"

definition points_string :: "fmt \<Rightarrow> layout \<Rightarrow> point list \<Rightarrow> string" where
  "points_string f l pts = concat (map (point_string f l) pts)"

definition Circle_toString ::
  "fmt \<Rightarrow> shape_base \<Rightarrow> fill \<Rightarrow> point \<Rightarrow> real \<Rightarrow> layout \<Rightarrow> string" where
  "Circle_toString f b fl center radius l =
     elemStart ''circle'' False @ serializeId (ident b)
     @ attribute ''cx'' (f (translateX (px center) l)) []
     @ attribute ''cy'' (f (translateY (py center) l)) []
     @ attribute ''r'' (f (translateScale radius l)) []
     @ SurfaceShape_toString f b fl l @ emptyElemEnd"

definition Elipse_toString ::
  "fmt \<Rightarrow> shape_base \<Rightarrow> fill \<Rightarrow> point \<Rightarrow> real \<Rightarrow> real \<Rightarrow> layout \<Rightarrow> string" where
  "Elipse_toString f b fl center radius_width radius_height l =
     elemStart ''ellipse'' False @ serializeId (ident b)
     @ attribute ''cx'' (f (translateX (px center) l)) []
     @ attribute ''cy'' (f (translateY (py center) l)) []
     @ attribute ''rx'' (f (translateScale radius_width l)) []
     @ attribute ''ry'' (f (translateScale radius_height l)) []
     @ SurfaceShape_toString f b fl l @ emptyElemEnd"

definition Rectangle_toString ::
  "fmt \<Rightarrow> shape_base \<Rightarrow> fill \<Rightarrow> point \<Rightarrow> real \<Rightarrow> real \<Rightarrow> real \<Rightarrow> real \<Rightarrow> layout \<Rightarrow> string" where
  "Rectangle_toString f b fl edge w h rx ry l =
     elemStart ''rect'' False @ serializeId (ident b)
     @ attribute ''x'' (f (translateX (px edge) l)) []
     @ attribute ''y'' (f (translateY (py edge) l)) []
     @ (if rx > 0 \<or> ry > 0 then attribute ''rx'' (f rx) [] @ attribute ''ry'' (f ry) [] else [])
     @ attribute ''width'' (f (translateScale w l)) []
     @ attribute ''height'' (f (translateScale h l)) []
     @ SurfaceShape_toString f b fl l @ emptyElemEnd"

definition Line_toString ::
  "fmt \<Rightarrow> shape_base \<Rightarrow> markerable \<Rightarrow> point \<Rightarrow> point \<Rightarrow> layout \<Rightarrow> string" where
  "Line_toString f b m start_point end_point l =
     elemStart ''line'' False @ serializeId (ident b)
     @ attribute ''x1'' (f (translateX (px start_point) l)) []
     @ attribute ''y1'' (f (translateY (py start_point) l)) []
     @ attribute ''x2'' (f (translateX (px end_point) l)) []
     @ attribute ''y2'' (f (translateY (py end_point) l)) []
     @ Shape_toString f b l @ Markerable_toString m @ emptyElemEnd"

definition Polygon_toString ::
  "fmt \<Rightarrow> shape_base \<Rightarrow> fill \<Rightarrow> point list \<Rightarrow> layout \<Rightarrow> string" where
  \<open>Polygon_toString f b fl pts l =
     elemStart ''polygon'' False @ serializeId (ident b)
     @ ''points="'' @ points_string f l pts @ ''" ''
     @ SurfaceShape_toString f b fl l @ emptyElemEnd\<close>

definition subpath_string :: "fmt \<Rightarrow> layout \<Rightarrow> point list \<Rightarrow> string" where
  "subpath_string f l subpath =
     (if subpath = [] then [] else ''M'' @ points_string f l subpath @ ''z '')"

definition Path_toString ::
  "fmt \<Rightarrow> shape_base \<Rightarrow> fill \<Rightarrow> point list list \<Rightarrow> layout \<Rightarrow> string" where
  \<open>Path_toString f b fl paths l =
     elemStart ''path'' False @ serializeId (ident b)
     @ ''d="'' @ concat (map (subpath_string f l) paths) @ ''" ''
     @ ''fill-rule="evenodd" ''
     @ SurfaceShape_toString f b fl l @ emptyElemEnd\<close>

fun Polyline_toString :: "fmt \<Rightarrow> polyline \<Rightarrow> layout \<Rightarrow> string" where
  \<open>Polyline_toString f (Polyline b m pts) l =
     elemStart ''polyline'' False @ serializeId (ident b) @ attribute ''fill'' ''none'' []
     @ ''points="'' @ points_string f l pts @ ''" ''
     @ Shape_toString f b l @ Markerable_toString m @ emptyElemEnd\<close>

fun anchor_string :: "text_anchor \<Rightarrow> string" where
  "anchor_string Anchor_Start = attribute ''text-anchor'' ''start'' []"
| "anchor_string Anchor_Middle = attribute ''text-anchor'' ''middle'' []"
| "anchor_string Anchor_End = attribute ''text-anchor'' ''end'' []"
| "anchor_string Anchor_None = []"

fun baseline_string :: "dominant_baseline \<Rightarrow> string" where
  "baseline_string TextBottom = attribute ''dominant-baseline'' ''text-bottom'' []"
| "baseline_string Alphabetic = attribute ''dominant-baseline'' ''alphabetic'' []"
| "baseline_string Ideographic = attribute ''dominant-baseline'' ''ideographic'' []"
| "baseline_string Middle = attribute ''dominant-baseline'' ''middle'' []"
| "baseline_string Central = attribute ''dominant-baseline'' ''central'' []"
| "baseline_string Mathematical = attribute ''dominant-baseline'' ''mathematical'' []"
| "baseline_string Hanging = attribute ''dominant-baseline'' ''hanging'' []"
| "baseline_string TextTop = attribute ''dominant-baseline'' ''text-top'' []"
| "baseline_string Baseline_None = []"

definition Text_toString ::
  "fmt \<Rightarrow> shape_base \<Rightarrow> fill \<Rightarrow> point \<Rightarrow> string \<Rightarrow> font \<Rightarrow> text_anchor \<Rightarrow> dominant_baseline
     \<Rightarrow> layout \<Rightarrow> string" where
  "Text_toString f b fl orig content fn anchor baseline l =
     elemStart ''text'' False @ serializeId (ident b)
     @ anchor_string anchor @ baseline_string baseline
     @ attribute ''x'' (f (translateX (px orig) l)) []
     @ attribute ''y'' (f (translateY (py orig) l)) []
     @ SurfaceShape_toString f b fl l @ Font_toString f fn l
     @ ''>'' @ content @ elemEnd ''text''"

subsection \<open>Offsets\<close>

text \<open>
  \<^verbatim>\<open>offset\<close> adds the offset to every point the shape owns. The source adds doubles
  with \<^verbatim>\<open>+=\<close>; the sum over the reals is that double wherever the double sum does not
  round.
\<close>

definition offset_point :: "point \<Rightarrow> point \<Rightarrow> point" where
  "offset_point off p = \<lparr>px = px p + px off, py = py p + py off\<rparr>"

fun Polyline_offset :: "point \<Rightarrow> polyline \<Rightarrow> polyline" where
  "Polyline_offset off (Polyline b m pts) = Polyline b m (map (offset_point off) pts)"

fun offset :: "point \<Rightarrow> shape \<Rightarrow> shape" where
  "offset off (Circle b fl center r) = Circle b fl (offset_point off center) r"
| "offset off (Elipse b fl center rw rh) = Elipse b fl (offset_point off center) rw rh"
| "offset off (Rectangle b fl edge w h rx ry) = Rectangle b fl (offset_point off edge) w h rx ry"
| "offset off (Line b m start_point end_point) =
     Line b m (offset_point off start_point) (offset_point off end_point)"
| "offset off (Polygon b fl pts) = Polygon b fl (map (offset_point off) pts)"
| "offset off (Path b fl paths) = Path b fl (map (map (offset_point off)) paths)"
| "offset off (Polyline_shape pl) = Polyline_shape (Polyline_offset off pl)"
| "offset off (Text b fl orig content fn a bl) = Text b fl (offset_point off orig) content fn a bl"
| "offset off (LineChart b axis margin pls) = LineChart b axis margin (map (Polyline_offset off) pls)"

text \<open>\<^verbatim>\<open>Polyline::operator<<(Point)\<close>\<close>

fun Polyline_add :: "polyline \<Rightarrow> point \<Rightarrow> polyline" where
  "Polyline_add (Polyline b m pts) p = Polyline b m (pts @ [p])"

subsection \<open>LineChart\<close>

text \<open>\<^verbatim>\<open>LineChart::operator<<(Polyline)\<close> drops a polyline without points.\<close>

fun LineChart_add :: "shape \<Rightarrow> polyline \<Rightarrow> shape" where
  "LineChart_add (LineChart b axis margin pls) pl =
     (if points pl = [] then LineChart b axis margin pls
      else LineChart b axis margin (pls @ [pl]))"
| "LineChart_add s pl = s"

text \<open>
  \<^verbatim>\<open>getDimensions\<close>. Each \<^verbatim>\<open>->\<close> on an invalid \<^verbatim>\<open>optional\<close> throws
  \<^verbatim>\<open>std::runtime_error\<close>: that happens as soon as the loop meets a polyline without points.
\<close>

fun bounds_loop ::
  "polyline list \<Rightarrow> point option \<Rightarrow> point option \<Rightarrow> error + (point option \<times> point option)" where
  "bounds_loop [] mn mx = Inr (mn, mx)"
| "bounds_loop (pl # pls) mn mx =
     (case (getMinPoint (points pl), getMaxPoint (points pl), mn, mx) of
        (Some a, Some b, Some m, Some M) \<Rightarrow>
          bounds_loop pls (Some (min_step m a)) (Some (max_step M b))
      | _ \<Rightarrow> Inl Runtime_error)"

definition getDimensions :: "polyline list \<Rightarrow> error + dimensions option" where
  "getDimensions polylines =
     (case polylines of
        [] \<Rightarrow> Inr None
      | pl0 # _ \<Rightarrow>
          (case bounds_loop polylines (getMinPoint (points pl0)) (getMaxPoint (points pl0)) of
             Inl e \<Rightarrow> Inl e
           | Inr (Some mn, Some mx) \<Rightarrow> Inr (Some (Dimensions (px mx - px mn) (py mx - py mn)))
           | Inr _ \<Rightarrow> Inl Runtime_error))"

text \<open>The axis is 10% wider and higher than the data and starts at the margin.\<close>

definition axisString ::
  "fmt \<Rightarrow> stroke \<Rightarrow> dimensions \<Rightarrow> polyline list \<Rightarrow> layout \<Rightarrow> error + string" where
  "axisString f axis_stroke margin polylines l =
     (case getDimensions polylines of
        Inl e \<Rightarrow> Inl e
      | Inr None \<Rightarrow> Inr []
      | Inr (Some dims) \<Rightarrow>
          (let w = width dims * (11 / 10);
               h = height dims * (11 / 10);
               axis = Polyline_add (Polyline_add (Polyline_add (new_Polyline [] axis_stroke)
                        (Point (width margin) (height margin + h)))
                        (Point (width margin) (height margin)))
                        (Point (width margin + w) (height margin))
           in Inr (Polyline_toString f axis l)))"

text \<open>
  Every vertex of the shifted polyline becomes a black circle whose constructor receives
  \<open>getDimensions()->height / 30\<close>; \<open>getDimensions\<close> is not called for a polyline without
  points.
\<close>

definition vertex_circle :: "dimensions \<Rightarrow> point \<Rightarrow> shape" where
  "vertex_circle dims p = new_Circle p (height dims / 30) (Fill (Color Black) 1) Stroke_default"

fun Circle_shape_toString :: "fmt \<Rightarrow> layout \<Rightarrow> shape \<Rightarrow> string" where
  "Circle_shape_toString f l (Circle b fl center r) = Circle_toString f b fl center r l"
| "Circle_shape_toString f l s = []"

definition polylineToString ::
  "fmt \<Rightarrow> dimensions \<Rightarrow> polyline list \<Rightarrow> polyline \<Rightarrow> layout \<Rightarrow> error + string" where
  "polylineToString f margin polylines pl l =
     (let shifted_polyline = Polyline_offset (Point (width margin) (height margin)) pl
      in if points shifted_polyline = [] then Inr (Polyline_toString f shifted_polyline l)
         else (case getDimensions polylines of
                 Inl e \<Rightarrow> Inl e
               | Inr None \<Rightarrow> Inl Runtime_error
               | Inr (Some dims) \<Rightarrow>
                   Inr (Polyline_toString f shifted_polyline l
                        @ concat (map (Circle_shape_toString f l)
                                    (map (vertex_circle dims) (points shifted_polyline))))))"

text \<open>Appending serializations in order; the first exception ends the loop.\<close>

fun concat_results :: "(error + string) list \<Rightarrow> error + string" where
  "concat_results [] = Inr []"
| "concat_results (Inl e # rs) = Inl e"
| "concat_results (Inr s # rs) = (case concat_results rs of Inl e \<Rightarrow> Inl e | Inr t \<Rightarrow> Inr (s @ t))"

definition LineChart_toString ::
  "fmt \<Rightarrow> stroke \<Rightarrow> dimensions \<Rightarrow> polyline list \<Rightarrow> layout \<Rightarrow> error + string" where
  "LineChart_toString f axis_stroke margin polylines l =
     (if polylines = [] then Inr []
      else concat_results
             (map (\<lambda>pl. polylineToString f margin polylines pl l) polylines
              @ [axisString f axis_stroke margin polylines l]))"

text \<open>The virtual \<^verbatim>\<open>toString\<close> of a shape.\<close>

fun toString :: "fmt \<Rightarrow> shape \<Rightarrow> layout \<Rightarrow> error + string" where
  "toString f (Circle b fl center r) l = Inr (Circle_toString f b fl center r l)"
| "toString f (Elipse b fl center rw rh) l = Inr (Elipse_toString f b fl center rw rh l)"
| "toString f (Rectangle b fl edge w h rx ry) l = Inr (Rectangle_toString f b fl edge w h rx ry l)"
| "toString f (Line b m p1 p2) l = Inr (Line_toString f b m p1 p2 l)"
| "toString f (Polygon b fl pts) l = Inr (Polygon_toString f b fl pts l)"
| "toString f (Path b fl paths) l = Inr (Path_toString f b fl paths l)"
| "toString f (Polyline_shape pl) l = Inr (Polyline_toString f pl l)"
| "toString f (Text b fl orig content fn a bl) l = Inr (Text_toString f b fl orig content fn a bl l)"
| "toString f (LineChart b axis margin pls) l = LineChart_toString f axis margin pls l"

subsection \<open>Marker\<close>

text \<open>
  \<^verbatim>\<open>Marker(markerId, markerWidth, markerHeight, refX, refY, shape, orientation = "auto")\<close>
  and \<^verbatim>\<open>Marker::operator<<(Shape)\<close>.
\<close>

definition new_Marker :: "string \<Rightarrow> real \<Rightarrow> real \<Rightarrow> real \<Rightarrow> real \<Rightarrow> shape \<Rightarrow> string \<Rightarrow> marker" where
  "new_Marker markerId markerWidth markerHeight refX refY shape orientation =
     Marker markerId markerWidth markerHeight refX refY orientation [shape]"

fun Marker_add :: "marker \<Rightarrow> shape \<Rightarrow> marker" where
  "Marker_add (Marker i mw mh rx ry orient shapes) s = Marker i mw mh rx ry orient (shapes @ [s])"

fun marker_shapes :: "marker \<Rightarrow> shape list" where
  "marker_shapes (Marker i mw mh rx ry orient shapes) = shapes"

text \<open>The shapes of a marker are written against \<open>Layout(Dimensions(), Layout::TopLeft)\<close>.\<close>

definition UNCHANGED :: layout where
  "UNCHANGED = Layout (Dimensions1 0) TopLeft 1 (Point 0 0)"

fun marker_body :: "(error + string) list \<Rightarrow> (error + string) list" where
  "marker_body [] = []"
| "marker_body [r] = [Inr (tab @ tab), r]"
| "marker_body (r # rs) = Inr (tab @ tab) # r # Inr nl # marker_body rs"

fun Marker_toString :: "fmt \<Rightarrow> marker \<Rightarrow> layout \<Rightarrow> error + string" where
  "Marker_toString f (Marker i marker_width marker_height ref_x ref_y orient shapes) l =
     (if i = [] then Inl Invalid_argument
      else concat_results
        ([Inr (tab @ elemStart ''marker'' False @ serializeId i
               @ attribute ''markerWidth'' (f marker_width) []
               @ attribute ''markerHeight'' (f marker_height) []
               @ attribute ''refX'' (f ref_x) []
               @ attribute ''refY'' (f ref_y) []
               @ attribute ''orient'' orient [] @ ''>'' @ nl)]
         @ marker_body (map (\<lambda>s. toString f s UNCHANGED) shapes)
         @ [Inr (tab @ tab @ elemEnd ''marker'')]))"

text \<open>
  \<^verbatim>\<open>Marker::operator!=\<close>: the identifier and the orientation are not compared. The
  shapes are written against the default layout, in the order \<open>shapes[i]\<close>,
  \<open>that.shapes[i]\<close>, and compared after sorting.
\<close>

fun interleave :: "'a list \<Rightarrow> 'a list \<Rightarrow> 'a list" where
  "interleave (a # as) (b # bs) = a # b # interleave as bs"
| "interleave as bs = []"

fun first_error :: "(error + string) list \<Rightarrow> error option" where
  "first_error [] = None"
| "first_error (Inl e # rs) = Some e"
| "first_error (Inr s # rs) = first_error rs"

fun strings_of :: "(error + string) list \<Rightarrow> string list" where
  "strings_of [] = []"
| "strings_of (Inl e # rs) = strings_of rs"
| "strings_of (Inr s # rs) = s # strings_of rs"

fun Marker_neq :: "fmt \<Rightarrow> marker \<Rightarrow> marker \<Rightarrow> error + bool" where
  "Marker_neq f (Marker i mw mh rx ry orient shapes) (Marker i' mw' mh' rx' ry' orient' shapes') =
     (if length shapes \<noteq> length shapes' \<or> \<not> equal_eps mw mw' \<or> \<not> equal_eps rx rx'
         \<or> \<not> equal_eps mh mh' \<or> \<not> equal_eps ry ry'
      then Inr True
      else
        (let str0 = map (\<lambda>s. toString f s Layout_default) shapes;
             str1 = map (\<lambda>s. toString f s Layout_default) shapes'
         in case first_error (interleave str0 str1) of
              Some e \<Rightarrow> Inl e
            | None \<Rightarrow>
                Inr (list_ex (\<lambda>(a, b). a \<noteq> b)
                       (zip (sort (strings_of str0)) (sort (strings_of str1))))))"

subsection \<open>Animations\<close>

text \<open>What the library writes to \<^verbatim>\<open>std::cerr\<close> while a document is serialized.\<close>

datatype diagnostic =
    Marker_collision string string
  | No_href string
  | No_attributeName string
  | No_path string

record animation_base =
  anim_id :: string
  href :: string
  begin_at :: string
  anim_fill :: string
  dur :: string

datatype animation =
    SetAttributeValue animation_base string string string
  | AnimateMotion animation_base "point list"

definition Animation_toString :: "animation_base \<Rightarrow> diagnostic list \<times> string" where
  "Animation_toString a =
     ((if href a = [] then [No_href (anim_id a)] else []),
      serializeId (anim_id a) @ attribute ''href'' (''#'' @ href a) []
      @ (if begin_at a \<noteq> [] then attribute ''begin'' (begin_at a) [] else [])
      @ (if anim_fill a \<noteq> [] then attribute ''fill'' (anim_fill a) [] else [])
      @ (if dur a \<noteq> [] then attribute ''dur'' (dur a) [] else []))"

fun motion_path :: "fmt \<Rightarrow> bool \<Rightarrow> point list \<Rightarrow> string" where
  "motion_path f first [] = []"
| \<open>motion_path f first (p # ps) =
     (if first then ''"M'' else ''L'') @ f (px p) @ '','' @ f (py p)
     @ (if ps \<noteq> [] then '' '' else []) @ motion_path f False ps\<close>

fun animation_toString :: "fmt \<Rightarrow> animation \<Rightarrow> layout \<Rightarrow> diagnostic list \<times> string" where
  "animation_toString f (SetAttributeValue a to attr_name attr_type) l =
     ((if attr_name = [] then [No_attributeName (anim_id a)] else []) @ fst (Animation_toString a),
      elemStart ''set'' False @ snd (Animation_toString a) @ attribute ''to'' to []
      @ attribute ''attributeName'' attr_name [] @ attribute ''attributeType'' attr_type []
      @ emptyElemEnd)"
| \<open>animation_toString f (AnimateMotion a pts) l =
     ((if pts = [] then [No_path (anim_id a)] else []) @ fst (Animation_toString a),
      elemStart ''animateMotion'' False @ snd (Animation_toString a) @ ''path=''
      @ motion_path f True pts @ ''" '' @ emptyElemEnd)\<close>

subsection \<open>Document\<close>

record document =
  doc_id :: string
  file_name :: string
  doc_layout :: layout
  body_nodes :: "shape list"
  needs_sorting :: bool
  animation_nodes :: "animation list"

definition Document :: "layout \<Rightarrow> document" where
  "Document l =
     \<lparr>doc_id = [], file_name = [], doc_layout = l, body_nodes = [], needs_sorting = False,
      animation_nodes = []\<rparr>"

text \<open>\<^verbatim>\<open>operator<<(Shape)\<close> and \<^verbatim>\<open>operator<<(Animation)\<close> store a clone.\<close>

definition add_shape :: "document \<Rightarrow> shape \<Rightarrow> document" where
  "add_shape d s =
     d\<lparr>body_nodes := body_nodes d @ [s], needs_sorting := (needs_sorting d \<or> shape_z s \<noteq> 0)\<rparr>"

definition add_animation :: "document \<Rightarrow> animation \<Rightarrow> document" where
  "add_animation d a = d\<lparr>animation_nodes := animation_nodes d @ [a]\<rparr>"

definition isAnimated :: "document \<Rightarrow> bool" where
  "isAnimated d = (animation_nodes d \<noteq> [])"

definition getFileName :: "document \<Rightarrow> string" where
  "getFileName d = file_name d"

definition libraryName :: string where
  "libraryName = ''svg-writer''"

definition libraryVersion :: string where
  "libraryVersion = ''1.0.0''"

definition svgVersion :: string where
  "svgVersion = ''1.1''"

definition preamble :: "fmt \<Rightarrow> document \<Rightarrow> string" where
  \<open>preamble f d =
     ''<?xml '' @ attribute ''version'' ''1.0'' [] @ attribute ''standalone'' ''no'' [] @ ''?>'' @ nl
     @ ''<!-- Generator: '' @ libraryName
     @ '' (https://github.com/CodeFinder2/svg-writer), Version: '' @ libraryVersion @ '' -->'' @ nl
     @ ''<!DOCTYPE svg PUBLIC "-//W3C//DTD SVG '' @ svgVersion @ ''//EN" ''
     @ ''"http://www.w3.org/Graphics/SVG/1.1/DTD/svg11.dtd">'' @ nl @ ''<svg ''
     @ serializeId (doc_id d)
     @ attribute ''width'' (f (width (dimensions (doc_layout d)))) ''px''
     @ attribute ''height'' (f (height (dimensions (doc_layout d)))) ''px''
     @ attribute ''xmlns'' ''http://www.w3.org/2000/svg'' []
     @ attribute ''version'' svgVersion [] @ ''>'' @ nl\<close>

text \<open>
  The sort phase: \<^verbatim>\<open>std::stable_sort\<close> by ascending \<open>z\<close>, only when \<open>needs_sorting\<close> is
  set. \<^const>\<open>sort_key\<close> is the stable insertion sort of the HOL library.
\<close>

definition sort_phase :: "document \<Rightarrow> document" where
  "sort_phase d =
     (if needs_sorting d then d\<lparr>body_nodes := sort_key shape_z (body_nodes d)\<rparr> else d)"

text \<open>\<^verbatim>\<open>dynamic_cast<const Markerable*>\<close> succeeds for lines and polylines.\<close>

fun as_Markerable :: "shape \<Rightarrow> markerable option" where
  "as_Markerable (Line b m p1 p2) = Some m"
| "as_Markerable (Polyline_shape (Polyline b m pts)) = Some m"
| "as_Markerable s = None"

text \<open>
  The marker collection phase. A marker \<open>i\<close> used by a node is compared with every marker
  \<open>j\<close> collected so far; \<open>*i != *j\<close> is evaluated only when the identifiers are equal.
\<close>

fun collisions :: "fmt \<Rightarrow> layout \<Rightarrow> shape \<Rightarrow> marker \<Rightarrow> marker list \<Rightarrow> error + diagnostic list" where
  "collisions f l node i [] = Inr []"
| "collisions f l node i (j # js) =
     (if getId i = getId j
      then (case Marker_neq f i j of
              Inl e \<Rightarrow> Inl e
            | Inr differ \<Rightarrow>
                if differ
                then (case toString f node l of
                        Inl e \<Rightarrow> Inl e
                      | Inr s \<Rightarrow>
                          (case collisions f l node i js of
                             Inl e \<Rightarrow> Inl e
                           | Inr ds \<Rightarrow> Inr (Marker_collision (getId i) s # ds)))
                else collisions f l node i js)
      else collisions f l node i js)"

fun collect_node ::
  "fmt \<Rightarrow> layout \<Rightarrow> shape \<Rightarrow> marker list \<Rightarrow> marker list \<Rightarrow> error + (diagnostic list \<times> marker list)" where
  "collect_node f l node [] all_used_markers = Inr ([], all_used_markers)"
| "collect_node f l node (i # markers) all_used_markers =
     (case collisions f l node i all_used_markers of
        Inl e \<Rightarrow> Inl e
      | Inr ds \<Rightarrow>
          (case collect_node f l node markers (MarkerSet_insert i all_used_markers) of
             Inl e \<Rightarrow> Inl e
           | Inr (ds', ms) \<Rightarrow> Inr (ds @ ds', ms)))"

fun collect_markers ::
  "fmt \<Rightarrow> layout \<Rightarrow> shape list \<Rightarrow> marker list \<Rightarrow> error + (diagnostic list \<times> marker list)" where
  "collect_markers f l [] all_used_markers = Inr ([], all_used_markers)"
| "collect_markers f l (node # nodes) all_used_markers =
     (case as_Markerable node of
        None \<Rightarrow> collect_markers f l nodes all_used_markers
      | Some m \<Rightarrow>
          (case collect_node f l node (getUsedMarkers m) all_used_markers of
             Inl e \<Rightarrow> Inl e
           | Inr (ds, ms) \<Rightarrow>
               (case collect_markers f l nodes ms of
                  Inl e \<Rightarrow> Inl e
                | Inr (ds', ms') \<Rightarrow> Inr (ds @ ds', ms'))))"

text \<open>The emit phase.\<close>

definition defs_string :: "fmt \<Rightarrow> layout \<Rightarrow> marker list \<Rightarrow> error + string" where
  "defs_string f l all_used_markers =
     (if all_used_markers = [] then Inr []
      else concat_results
             ([Inr (elemStart ''defs'' True)]
              @ map (\<lambda>m. Marker_toString f m l) all_used_markers
              @ [Inr (tab @ elemEnd ''defs'')]))"

definition body_string :: "fmt \<Rightarrow> layout \<Rightarrow> shape list \<Rightarrow> error + string" where
  "body_string f l nodes = concat_results (map (\<lambda>s. toString f s l) nodes)"

definition animations_string :: "fmt \<Rightarrow> layout \<Rightarrow> animation list \<Rightarrow> string" where
  "animations_string f l anims = concat (map (\<lambda>a. snd (animation_toString f a l)) anims)"

definition animations_diagnostics :: "fmt \<Rightarrow> layout \<Rightarrow> animation list \<Rightarrow> diagnostic list" where
  "animations_diagnostics f l anims = concat (map (\<lambda>a. fst (animation_toString f a l)) anims)"

text \<open>
  \<^verbatim>\<open>writeToStream\<close> returns what reached the stream and \<^verbatim>\<open>std::cerr\<close>, or the exception,
  together with the document, whose nodes the sort phase has reordered in place.
\<close>

definition emit :: "fmt \<Rightarrow> document \<Rightarrow> error + (string \<times> diagnostic list)" where
  "emit f d =
     (case collect_markers f (doc_layout d) (body_nodes d) [] of
        Inl e \<Rightarrow> Inl e
      | Inr (ds, all_used_markers) \<Rightarrow>
          (case defs_string f (doc_layout d) all_used_markers of
             Inl e \<Rightarrow> Inl e
           | Inr defs \<Rightarrow>
               (case body_string f (doc_layout d) (body_nodes d) of
                  Inl e \<Rightarrow> Inl e
                | Inr body \<Rightarrow>
                    Inr (preamble f d @ defs @ body
                         @ animations_string f (doc_layout d) (animation_nodes d)
                         @ elemEnd ''svg'',
                         ds @ animations_diagnostics f (doc_layout d) (animation_nodes d)))))"

definition writeToStream :: "fmt \<Rightarrow> document \<Rightarrow> (error + (string \<times> diagnostic list)) \<times> document" where
  "writeToStream f d = (emit f (sort_phase d), sort_phase d)"

text \<open>\<^verbatim>\<open>Document::toString\<close>: the string of the stream.\<close>

definition Document_toString :: "fmt \<Rightarrow> document \<Rightarrow> (error + string) \<times> document" where
  "Document_toString f d = (map_sum id fst (fst (writeToStream f d)), snd (writeToStream f d))"

text \<open>
  \<^verbatim>\<open>Document::save\<close>. Whether the file opens and whether the stream is good after the
  write belong to the file system: the parameters \<open>can_open\<close> and \<open>stays_good\<close>. The
  result is the returned flag (or the exception), the document, and the file written.
\<close>

definition save_name :: "document \<Rightarrow> string \<Rightarrow> bool \<Rightarrow> string" where
  "save_name d filename auto_append =
     (if auto_append
      then (if isAnimated d
            then (if \<not> ends_with filename ''.html'' then filename @ ''.html'' else filename)
            else (if \<not> ends_with filename ''.svg'' then filename @ ''.svg'' else filename))
      else filename)"

definition save ::
  "fmt \<Rightarrow> (string \<Rightarrow> bool) \<Rightarrow> (string \<Rightarrow> bool) \<Rightarrow> document \<Rightarrow> string \<Rightarrow> bool
     \<Rightarrow> (error + bool) \<times> document \<times> (string \<times> string) option" where
  "save f can_open stays_good d filename auto_append =
     (let d1 = d\<lparr>file_name := save_name d filename auto_append\<rparr>
      in if \<not> can_open (file_name d1) then (Inr False, d1, None)
         else (case fst (writeToStream f d1) of
                 Inl e \<Rightarrow> (Inl e, snd (writeToStream f d1), None)
               | Inr (out, ds) \<Rightarrow>
                   (Inr (stays_good (file_name d1)), snd (writeToStream f d1),
                    Some (file_name d1, out))))"

subsection \<open>Instances for the examples\<close>

text \<open>
  The name under which \<^verbatim>\<open>save\<close> leaves the document (\<^verbatim>\<open>getFileName\<close> after \<^verbatim>\<open>save\<close>).
\<close>

definition saved_name ::
  "fmt \<Rightarrow> (string \<Rightarrow> bool) \<Rightarrow> (string \<Rightarrow> bool) \<Rightarrow> document \<Rightarrow> string \<Rightarrow> bool \<Rightarrow> string" where
  "saved_name f can_open stays_good d filename auto_append =
     getFileName (fst (snd (save f can_open stays_good d filename auto_append)))"

text \<open>
  The examples print numbers with \<open>fmt_integral\<close>, the decimal digits of the integral
  part: what the stream prints for an integral \<^verbatim>\<open>double\<close> of magnitude below \<open>10^6\<close>. It
  is applied to such values only. In the examples every file opens.
\<close>

definition fmt_integral :: fmt where
  "fmt_integral r = show_int \<lfloor>r\<rfloor>"

definition writable :: "string \<Rightarrow> bool" where
  "writable path = True"

definition motion_example :: animation where
  "motion_example =
     AnimateMotion \<lparr>anim_id = [], href = ''c1'', begin_at = [], anim_fill = [], dur = ''2s''\<rparr>
       [Point 0 0, Point 10 10]"

subsection \<open>Use of a document through its public interface\<close>

text \<open>
  The members of a document are protected: a document is changed only by appending a
  shape or an animation, by \<^verbatim>\<open>toString\<close> and by \<^verbatim>\<open>save\<close>. \<open>run\<close> applies a sequence of
  such calls to a new document; \<open>inserted\<close> lists the appended shapes in order.
\<close>

datatype doc_op = Add_shape shape | Add_animation animation | Call_toString | Call_save string bool

fun apply_op :: "fmt \<Rightarrow> (string \<Rightarrow> bool) \<Rightarrow> (string \<Rightarrow> bool) \<Rightarrow> document \<Rightarrow> doc_op \<Rightarrow> document" where
  "apply_op f can_open stays_good d (Add_shape s) = add_shape d s"
| "apply_op f can_open stays_good d (Add_animation a) = add_animation d a"
| "apply_op f can_open stays_good d Call_toString = snd (Document_toString f d)"
| "apply_op f can_open stays_good d (Call_save filename auto_append) =
     fst (snd (save f can_open stays_good d filename auto_append))"

definition run :: "fmt \<Rightarrow> (string \<Rightarrow> bool) \<Rightarrow> (string \<Rightarrow> bool) \<Rightarrow> layout \<Rightarrow> doc_op list \<Rightarrow> document" where
  "run f can_open stays_good l ops = foldl (apply_op f can_open stays_good) (Document l) ops"

fun inserted :: "doc_op list \<Rightarrow> shape list" where
  "inserted [] = []"
| "inserted (Add_shape s # ops) = s # inserted ops"
| "inserted (opn # ops) = inserted ops"

text \<open>What the calls maintain between the flag, the nodes and the appended shapes.\<close>

definition doc_inv :: "document \<Rightarrow> shape list \<Rightarrow> bool" where
  "doc_inv d ins \<longleftrightarrow>
     needs_sorting d = list_ex (\<lambda>s. shape_z s \<noteq> 0) ins
     \<and> sort_key shape_z (body_nodes d) = sort_key shape_z ins
     \<and> (\<not> needs_sorting d \<longrightarrow> body_nodes d = ins)"

text \<open>
  A \<^verbatim>\<open>LineChart\<close> built by its constructor and \<^verbatim>\<open>operator<<\<close> holds only polylines with
  points; nothing else gives access to its polylines. A marker is \<open>marker_ok\<close>, and a
  node \<open>node_wf\<close>, when the shapes reached from it are such.
\<close>

fun wf_shape :: "shape \<Rightarrow> bool" where
  "wf_shape (LineChart b axis margin pls) = list_all (\<lambda>pl. points pl \<noteq> []) pls"
| "wf_shape s = True"

definition marker_ok :: "marker \<Rightarrow> bool" where
  "marker_ok m = list_all wf_shape (marker_shapes m)"

definition marker_option_ok :: "marker option \<Rightarrow> bool" where
  "marker_option_ok mo = (case mo of None \<Rightarrow> True | Some m \<Rightarrow> marker_ok m)"

fun markerable_ok :: "markerable \<Rightarrow> bool" where
  "markerable_ok (Markerable a b c) = (marker_option_ok a \<and> marker_option_ok b \<and> marker_option_ok c)"

definition node_wf :: "shape \<Rightarrow> bool" where
  "node_wf s = (wf_shape s \<and> (case as_Markerable s of None \<Rightarrow> True | Some m \<Rightarrow> markerable_ok m))"

text \<open>The pieces that \<^verbatim>\<open>Marker::toString\<close> writes for a marker with an identifier.\<close>

definition marker_pieces :: "fmt \<Rightarrow> marker \<Rightarrow> (error + string) list" where
  "marker_pieces f m =
     (case m of Marker i mw mh rx ry orient shapes \<Rightarrow>
        [Inr (tab @ elemStart ''marker'' False @ serializeId i
               @ attribute ''markerWidth'' (f mw) []
               @ attribute ''markerHeight'' (f mh) []
               @ attribute ''refX'' (f rx) []
               @ attribute ''refY'' (f ry) []
               @ attribute ''orient'' orient [] @ ''>'' @ nl)]
         @ marker_body (map (\<lambda>s. toString f s UNCHANGED) shapes)
         @ [Inr (tab @ tab @ elemEnd ''marker'')])"

subsection \<open>Translating the coordinates of a serialization\<close>

text \<open>
  Serializing a shape and then translating every coordinate of the output by the
  layout-scaled delta is serializing it against the layout whose origin offset is moved
  by the delta: every coordinate is written through \<open>translateX\<close> or \<open>translateY\<close>,
  which then yield the former value plus the delta times the scale, with the sign of
  the axis direction of the origin (\<open>x_direction\<close>, \<open>y_direction\<close>); scale-only quantities
  are unchanged.
\<close>

fun is_LineChart :: "shape \<Rightarrow> bool" where
  "is_LineChart (LineChart b axis margin pls) = True"
| "is_LineChart s = False"








subsection \<open>Bounding box and pieces of a chart\<close>

text \<open>
  The extent of all points of all polylines of a chart, stated with \<open>Max\<close> and \<open>Min\<close>;
  \<open>shifted\<close> is the polyline moved by the margin, and \<open>vertices_string\<close> the circles
  of a given radius (black fill, default stroke) written for its points.
\<close>

definition all_points :: "polyline list \<Rightarrow> point list" where
  "all_points pls = concat (map points pls)"

definition bbox_width :: "polyline list \<Rightarrow> real" where
  "bbox_width pls = Max (px ` set (all_points pls)) - Min (px ` set (all_points pls))"

definition bbox_height :: "polyline list \<Rightarrow> real" where
  "bbox_height pls = Max (py ` set (all_points pls)) - Min (py ` set (all_points pls))"

text \<open>
  A chart with the axis stroke \<open>Stroke(1, Color::Purple)\<close> and one polyline through
  (0, 0) and (30, 60).
\<close>

definition chart_example :: shape where
  "chart_example =
     LineChart_add (new_LineChart (Dimensions1 0) (Stroke2 1 (Color Purple)))
       (new_Polyline [Point 0 0, Point 30 60] Stroke_default)"

definition shifted :: "dimensions \<Rightarrow> polyline \<Rightarrow> polyline" where
  "shifted margin pl = Polyline_offset (Point (width margin) (height margin)) pl"

definition vertices_string :: "fmt \<Rightarrow> real \<Rightarrow> layout \<Rightarrow> point list \<Rightarrow> string" where
  "vertices_string f radius l pts =
     concat (map (\<lambda>p. Circle_toString f (Shape Stroke_default) (Fill (Color Black) 1) p radius l) pts)"

subsection \<open>Occurrences of stroke attributes in a serialization\<close>

text \<open>
  Every attribute that \<^verbatim>\<open>Stroke::toString\<close> writes has "stroke" in its name or value
  (\<open>stroke-width\<close>, \<open>stroke\<close>, \<open>stroke-miterlimit\<close>, \<open>stroke-dashoffset\<close>, \<open>stroke-dasharray\<close>,
  \<open>stroke-opacity\<close>, \<open>vector-effect="non-scaling-stroke"\<close>): a serialization without an
  occurrence of "stroke" has no stroke attribute. \<open>sealed\<close> and \<open>opened\<close> say that a
  string free of "stroke" ends, or starts, with a character that is not a letter of
  that word, so that no occurrence can run across the boundary.

  The strings a shape writes as the caller gave them are its \<open>written_texts\<close>
  (identifier, style, text content, font family, identifiers of referenced markers),
  and the strokes it writes its \<open>written_strokes\<close>: the stroke of the shape, and for a
  \<open>LineChart\<close>, which never writes its own stroke, the axis stroke and the strokes of
  the polylines. \<open>fmt_clean\<close> says that no printed number contains "stroke".
\<close>

definition no_stroke :: "string \<Rightarrow> bool" where
  "no_stroke s = (\<not> sublist ''stroke'' s)"

definition delim :: "char \<Rightarrow> bool" where
  "delim c = (c \<notin> set ''stroke'')"

definition sealed :: "string \<Rightarrow> bool" where
  "sealed s = (no_stroke s \<and> (s = [] \<or> delim (last s)))"

definition opened :: "string \<Rightarrow> bool" where
  "opened s = (no_stroke s \<and> s \<noteq> [] \<and> delim (hd s))"

definition fmt_clean :: "fmt \<Rightarrow> bool" where
  "fmt_clean f = (\<forall>x. no_stroke (f x))"

definition marker_option_id :: "marker option \<Rightarrow> string" where
  "marker_option_id mo = (case mo of None \<Rightarrow> [] | Some m \<Rightarrow> getId m)"

fun marker_ids :: "markerable \<Rightarrow> string list" where
  "marker_ids (Markerable marker_start marker_mid marker_end) =
     [marker_option_id marker_start, marker_option_id marker_mid, marker_option_id marker_end]"

fun polyline_texts :: "polyline \<Rightarrow> string list" where
  "polyline_texts (Polyline b m pts) = [ident b, style b] @ marker_ids m"

fun written_texts :: "shape \<Rightarrow> string list" where
  "written_texts (Line b m p1 p2) = [ident b, style b] @ marker_ids m"
| "written_texts (Polyline_shape pl) = polyline_texts pl"
| "written_texts (Text b fl p content fn a bl) = [ident b, style b, content, family fn]"
| "written_texts (LineChart b axis margin pls) = concat (map polyline_texts pls)"
| "written_texts s = [ident (base_of s), style (base_of s)]"

fun written_strokes :: "shape \<Rightarrow> stroke list" where
  "written_strokes (LineChart b axis margin pls) = axis # map (\<lambda>pl. stroke (polyline_base pl)) pls"
| "written_strokes s = [stroke (base_of s)]"

text \<open>A chart with the axis stroke \<open>Stroke(1, Color::Purple)\<close> and one point.\<close>

definition single_point_chart :: shape where
  "single_point_chart =
     LineChart_add (new_LineChart (Dimensions1 0) (Stroke2 1 (Color Purple)))
       (new_Polyline [Point 20 10] Stroke_default)"

text \<open>Shapes, markers and call sequences of the examples.\<close>

definition labelled :: "string \<Rightarrow> int \<Rightarrow> shape" where
  "labelled name k = setId name (set_z k (new_Circle (Point 0 0) 10 Fill_default Stroke_default))"

definition z_example :: "doc_op list" where
  "z_example =
     map Add_shape
       [labelled ''a'' 2, labelled ''b'' 0, labelled ''c'' 1, labelled ''d'' 0, labelled ''e'' (- 1)]"

definition zero_example :: "doc_op list" where
  "zero_example = [Add_shape (labelled ''a'' 0), Call_toString, Add_shape (labelled ''b'' 0)]"

text \<open>What \<^verbatim>\<open>toString\<close> returns for the two call sequences under the default layout.\<close>

definition z_example_output :: string where
  \<open>z_example_output =
     ''<?xml version="1.0" standalone="no" ?>'' @ nl
   @ ''<!-- Generator: svg-writer (https://github.com/CodeFinder2/svg-writer), Version: 1.0.0 -->'' @ nl
   @ ''<!DOCTYPE svg PUBLIC "-//W3C//DTD SVG 1.1//EN" "http://www.w3.org/Graphics/SVG/1.1/DTD/svg11.dtd">'' @ nl
   @ ''<svg width="400px" height="300px" xmlns="http://www.w3.org/2000/svg" version="1.1" >'' @ nl
   @ tab @ ''<circle id="e" cx="0" cy="300" r="5" fill="none" />'' @ nl
   @ tab @ ''<circle id="b" cx="0" cy="300" r="5" fill="none" />'' @ nl
   @ tab @ ''<circle id="d" cx="0" cy="300" r="5" fill="none" />'' @ nl
   @ tab @ ''<circle id="c" cx="0" cy="300" r="5" fill="none" />'' @ nl
   @ tab @ ''<circle id="a" cx="0" cy="300" r="5" fill="none" />'' @ nl
   @ ''</svg>'' @ nl\<close>

definition zero_example_output :: string where
  \<open>zero_example_output =
     ''<?xml version="1.0" standalone="no" ?>'' @ nl
   @ ''<!-- Generator: svg-writer (https://github.com/CodeFinder2/svg-writer), Version: 1.0.0 -->'' @ nl
   @ ''<!DOCTYPE svg PUBLIC "-//W3C//DTD SVG 1.1//EN" "http://www.w3.org/Graphics/SVG/1.1/DTD/svg11.dtd">'' @ nl
   @ ''<svg width="400px" height="300px" xmlns="http://www.w3.org/2000/svg" version="1.1" >'' @ nl
   @ tab @ ''<circle id="a" cx="0" cy="300" r="5" fill="none" />'' @ nl
   @ tab @ ''<circle id="b" cx="0" cy="300" r="5" fill="none" />'' @ nl
   @ ''</svg>'' @ nl\<close>

text \<open>A polyline with a black stroke after \<^verbatim>\<open>setStyle("fill:red")\<close>.\<close>

definition filled_polyline :: shape where
  "filled_polyline =
     setStyle ''fill:red''
       (Polyline_shape (new_Polyline [Point 0 0, Point 10 0, Point 10 10] (Stroke2 1 (Color Black))))"

definition red_dot :: shape where
  "red_dot = new_Circle (Point 5 5) 10 (Fill (Color Red) 1) Stroke_default"

text \<open>
  Two markers with the identifier "m1" and different shapes, referenced from the two
  ends of one line, and from two lines.
\<close>

definition blue_square :: shape where
  "blue_square = new_Rectangle (Point 0 0) 10 10 (Fill (Color Blue) 1) Stroke_default 0 0"

definition marker_dot :: marker where
  "marker_dot = new_Marker ''m1'' 10 10 5 5 red_dot ''auto''"

definition marker_square :: marker where
  "marker_square = new_Marker ''m1'' 10 10 5 5 blue_square ''auto''"

definition black_line :: shape where
  "black_line = new_Line (Point 0 0) (Point 100 100) (Stroke2 1 (Color Black))"

definition two_markers_one_line :: document where
  "two_markers_one_line =
     add_shape (Document Layout_default)
       (setEndMarker marker_square (setStartMarker marker_dot black_line))"

definition two_markers_two_lines :: document where
  "two_markers_two_lines =
     add_shape (add_shape (Document Layout_default) (setStartMarker marker_dot black_line))
       (setEndMarker marker_square black_line)"

definition one_marker_two_lines :: document where
  "one_marker_two_lines =
     add_shape (add_shape (Document Layout_default) (setStartMarker marker_dot black_line))
       (setEndMarker marker_dot black_line)"

section \<open>Properties\<close>

subsection \<open>Coordinate transform\<close>

text \<open>
  C1. For every layout and logical coordinate, \<open>translateX\<close> is
  \<open>width - (x + origin_offset.x) * scale\<close> for the origins TopRight and BottomRight and
  \<open>(origin_offset.x + x) * scale\<close> for the others; \<open>translateY\<close> is
  \<open>height - (y + origin_offset.y) * scale\<close> for BottomLeft and BottomRight and
  \<open>(origin_offset.y + y) * scale\<close> for the others. Point (0, 0) under a bottom-left origin,
  dimensions (400, 300), scale 1 and offset (0, 0) goes to (0, 300).
\<close>

theorem translate_origin_cases:
  "translateX x l =
     (case origin l of
        TopRight \<Rightarrow> width (dimensions l) - (x + px (origin_offset l)) * scale l
      | BottomRight \<Rightarrow> width (dimensions l) - (x + px (origin_offset l)) * scale l
      | TopLeft \<Rightarrow> (px (origin_offset l) + x) * scale l
      | BottomLeft \<Rightarrow> (px (origin_offset l) + x) * scale l)
   \<and> translateY y l =
     (case origin l of
        BottomLeft \<Rightarrow> height (dimensions l) - (y + py (origin_offset l)) * scale l
      | BottomRight \<Rightarrow> height (dimensions l) - (y + py (origin_offset l)) * scale l
      | TopLeft \<Rightarrow> (py (origin_offset l) + y) * scale l
      | TopRight \<Rightarrow> (py (origin_offset l) + y) * scale l)
   \<and> translateX (px (Point 0 0)) (Layout (Dimensions 400 300) BottomLeft 1 (Point 0 0)) = 0
   \<and> translateY (py (Point 0 0)) (Layout (Dimensions 400 300) BottomLeft 1 (Point 0 0)) = 300"
  by (cases "origin l")
     (simp_all add: translateX_def translateY_def Layout_def Dimensions_def Point_def)


subsection \<open>File name chosen by save\<close>

lemma ends_with_suffix: "ends_with v e \<longleftrightarrow> suffix e v"
proof
  assume "ends_with v e"
  then have eq: "rev e = take (length e) (rev v)"
    by (auto simp: ends_with_def split: if_splits)
  have "rev v = take (length e) (rev v) @ drop (length e) (rev v)" by simp
  then have "rev v = rev e @ drop (length e) (rev v)" using eq by simp
  then have "v = rev (drop (length e) (rev v)) @ e"
    by (metis rev_append rev_rev_ident)
  then show "suffix e v" by (metis suffixI)
next
  assume "suffix e v"
  then obtain p where "v = p @ e" by (auto simp: suffix_def)
  then show "ends_with v e" by (simp add: ends_with_def)
qed

lemma file_name_sort_phase: "file_name (sort_phase d) = file_name d"
  by (simp add: sort_phase_def)

lemma saved_name_eq: "saved_name f co sg d filename a = save_name d filename a"
  by (simp add: saved_name_def save_def Let_def getFileName_def writeToStream_def
      file_name_sort_phase split: sum.splits prod.splits)

lemma suffix_appended: "suffix e (p @ e)"
  by (simp add: suffix_def)

lemma save_name_html: "isAnimated d \<Longrightarrow> suffix ''.html'' (save_name d filename True)"
  by (cases "ends_with filename ''.html''")
     (simp_all add: save_name_def suffix_appended, simp add: ends_with_suffix)

lemma save_name_svg: "\<not> isAnimated d \<Longrightarrow> suffix ''.svg'' (save_name d filename True)"
  by (cases "ends_with filename ''.svg''")
     (simp_all add: save_name_def suffix_appended, simp add: ends_with_suffix)

lemma save_name_chart_svg:
  "save_name d ''chart.svg'' True =
     (if isAnimated d then ''chart.svg.html'' else ''chart.svg'')"
  by (simp add: save_name_def ends_with_def)

text \<open>
  C3, as the code has it. With \<open>auto_append\<close> set, the file name ends in ".html" for a
  document with an animation and in ".svg" for one without. \<open>save("chart.svg")\<close> keeps
  the name "chart.svg" only for a document without animations: for an animated one
  the name does not end in ".html", so ".html" is appended and the name is
  "chart.svg.html". Without \<open>auto_append\<close> the name is never changed.
\<close>

theorem save_extension:
  "(if isAnimated d
    then suffix ''.html'' (saved_name f can_open stays_good d filename True)
       \<and> saved_name f can_open stays_good d ''chart.svg'' True = ''chart.svg.html''
    else suffix ''.svg'' (saved_name f can_open stays_good d filename True)
       \<and> saved_name f can_open stays_good d ''chart.svg'' True = ''chart.svg'')
   \<and> saved_name f can_open stays_good d filename False = filename"
  by (simp add: saved_name_eq save_name_html save_name_svg save_name_chart_svg)
     (simp add: save_name_def)

text \<open>
  C3 as stated fails: saving an animated document as "chart.svg" does append a second
  extension.
\<close>

theorem save_chart_svg_animated_counterexample:
  "isAnimated (add_animation (Document Layout_default) motion_example)
   \<and> saved_name fmt_integral writable writable
        (add_animation (Document Layout_default) motion_example) ''chart.svg'' True
      = ''chart.svg.html''"
  by (simp add: saved_name_eq save_name_chart_svg isAnimated_def add_animation_def)

subsection \<open>Polyline\<close>

text \<open>
  C10, as the code has it. The serialization of every polyline, whatever its stroke,
  style, markers and points, contains the attribute \<open>fill="none"\<close>, and so does the
  serialization of the polyline as a shape: no call changes or removes that attribute.
  The style string set with \<^verbatim>\<open>setStyle\<close> is written as it is into a \<open>style\<close> attribute of
  the same element, next to \<open>fill="none"\<close>.
\<close>

theorem polyline_fill_none:
  \<open>sublist ''fill="none" '' (Polyline_toString f pl l)
   \<and> (\<exists>out. toString f (Polyline_shape pl) l = Inr out \<and> sublist ''fill="none" '' out)
   \<and> (\<exists>out. toString f (setStyle st (Polyline_shape pl)) l = Inr out
          \<and> sublist ''fill="none" '' out
          \<and> sublist (if st = [] then [] else attribute ''style'' st []) out)\<close>
proof -
  have fill: \<open>sublist ''fill="none" '' (Polyline_toString f q l)\<close> for q
  proof -
    obtain b m pts where q: "q = Polyline b m pts"
      by (cases q)
    have \<open>Polyline_toString f q l =
        (elemStart ''polyline'' False @ serializeId (ident b)) @ ''fill="none" ''
        @ (''points="'' @ points_string f l pts @ ''" ''
           @ Shape_toString f b l @ Markerable_toString m @ emptyElemEnd)\<close>
      by (simp add: q attribute_def)
    then show ?thesis
      unfolding sublist_def by blast
  qed
  obtain b m pts where pl: "pl = Polyline b m pts"
    by (cases pl)
  let ?q = "polyline_map_base (\<lambda>b. b\<lparr>style := st\<rparr>) pl"
  let ?a = "if st = [] then [] else attribute ''style'' st []"
  have \<open>Polyline_toString f ?q l =
      (elemStart ''polyline'' False @ serializeId (ident b) @ attribute ''fill'' ''none'' []
       @ ''points="'' @ points_string f l pts @ ''" '' @ Stroke_toString f (stroke b) l)
      @ ?a
      @ ((if \<not> visible b then attribute ''visibility'' ''hidden'' [] else [])
         @ Markerable_toString m @ emptyElemEnd)\<close>
    by (simp add: pl Shape_toString_def)
  then have \<open>sublist ?a (Polyline_toString f ?q l)\<close>
    unfolding sublist_def by blast
  then show ?thesis
    using fill [of pl] fill [of ?q] by (simp add: setStyle_def)
qed

text \<open>
  C10 as stated fails in its second half: a polyline can be given a fill through the
  public interface. After \<^verbatim>\<open>setStyle("fill:red")\<close> the element carries the declaration
  \<open>fill:red\<close> in its \<open>style\<close> attribute, which a renderer applies in preference to the
  attribute \<open>fill="none"\<close>.
\<close>

theorem polyline_style_fill_counterexample:
  \<open>toString fmt_integral filled_polyline Layout_default = Inr (
     tab @ ''<polyline fill="none" points="0,300 10,300 10,290 " stroke-width="1" stroke="rgb(0,0,0)" stroke-dashoffset="0" style="fill:red" />'' @ nl)\<close>
  by code_simp


subsection \<open>Shapes built through the interface serialize without an exception\<close>

lemma wf_new_LineChart: "wf_shape (new_LineChart margin axis)"
  by (simp add: new_LineChart_def)

lemma wf_LineChart_add: "wf_shape s \<Longrightarrow> wf_shape (LineChart_add s pl)"
  by (cases s) simp_all

lemma points_Polyline_offset: "points (Polyline_offset off pl) = map (offset_point off) (points pl)"
  by (cases pl) simp

lemma wf_offset: "wf_shape s \<Longrightarrow> wf_shape (offset off s)"
  by (cases s) (simp_all add: list_all_iff points_Polyline_offset)

lemma wf_map_base: "wf_shape s \<Longrightarrow> wf_shape (map_base g s)"
  by (cases s) simp_all

lemma getMinPoint_Some: "pts \<noteq> [] \<Longrightarrow> \<exists>p. getMinPoint pts = Some p"
  by (cases pts) (simp_all add: getMinPoint_def)

lemma getMaxPoint_Some: "pts \<noteq> [] \<Longrightarrow> \<exists>p. getMaxPoint pts = Some p"
  by (cases pts) (simp_all add: getMaxPoint_def)

lemma bounds_loop_total:
  "list_all (\<lambda>pl. points pl \<noteq> []) pls \<Longrightarrow>
     \<exists>mn' mx'. bounds_loop pls (Some mn) (Some mx) = Inr (Some mn', Some mx')"
proof (induction pls arbitrary: mn mx)
  case Nil
  show ?case by simp
next
  case (Cons pl pls)
  then have "points pl \<noteq> []" by simp
  then obtain a b where "getMinPoint (points pl) = Some a" "getMaxPoint (points pl) = Some b"
    using getMinPoint_Some getMaxPoint_Some by blast
  then show ?case using Cons by simp
qed

lemma getDimensions_total:
  "list_all (\<lambda>pl. points pl \<noteq> []) pls \<Longrightarrow> pls \<noteq> [] \<Longrightarrow> \<exists>dims. getDimensions pls = Inr (Some dims)"
proof -
  assume wf: "list_all (\<lambda>pl. points pl \<noteq> []) pls" and ne: "pls \<noteq> []"
  then obtain pl0 rest where pls: "pls = pl0 # rest" by (cases pls) auto
  then have "points pl0 \<noteq> []" using wf by simp
  then obtain a b where ab: "getMinPoint (points pl0) = Some a" "getMaxPoint (points pl0) = Some b"
    using getMinPoint_Some getMaxPoint_Some by blast
  obtain mn mx where "bounds_loop pls (Some a) (Some b) = Inr (Some mn, Some mx)"
    using bounds_loop_total [OF wf] by blast
  then show ?thesis using ab by (simp add: getDimensions_def pls)
qed

lemma concat_results_total:
  "list_all (\<lambda>r. \<exists>s. r = Inr s) rs \<Longrightarrow> \<exists>out. concat_results rs = Inr out"
  by (induction rs rule: concat_results.induct) auto

lemma polylineToString_total:
  "list_all (\<lambda>pl. points pl \<noteq> []) pls \<Longrightarrow> pls \<noteq> [] \<Longrightarrow>
     \<exists>out. polylineToString f margin pls pl l = Inr out"
  using getDimensions_total [of pls] by (auto simp: polylineToString_def Let_def)

lemma axisString_total:
  "list_all (\<lambda>pl. points pl \<noteq> []) pls \<Longrightarrow> pls \<noteq> [] \<Longrightarrow>
     \<exists>out. axisString f axis margin pls l = Inr out"
  using getDimensions_total [of pls] by (auto simp: axisString_def Let_def)

lemma LineChart_toString_total:
  "list_all (\<lambda>pl. points pl \<noteq> []) pls \<Longrightarrow> \<exists>out. LineChart_toString f axis margin pls l = Inr out"
proof (cases "pls = []")
  case True
  then show ?thesis by (simp add: LineChart_toString_def)
next
  case False
  assume wf: "list_all (\<lambda>pl. points pl \<noteq> []) pls"
  have "list_all (\<lambda>r. \<exists>s. r = Inr s)
          (map (\<lambda>pl. polylineToString f margin pls pl l) pls @ [axisString f axis margin pls l])"
    using polylineToString_total [OF wf False] axisString_total [OF wf False]
    by (simp add: list_all_iff)
  then show ?thesis using False
    by (simp add: LineChart_toString_def concat_results_total)
qed

lemma toString_total: "wf_shape s \<Longrightarrow> \<exists>out. toString f s l = Inr out"
  by (cases s) (simp_all add: LineChart_toString_total)

lemma concat_results_error:
  "concat_results rs = Inl e \<Longrightarrow> Inl e \<in> set rs"
  by (induction rs rule: concat_results.induct) (auto split: sum.splits)

lemma bounds_loop_error: "bounds_loop pls mn mx = Inl e \<Longrightarrow> e = Runtime_error"
  by (induction pls mn mx rule: bounds_loop.induct) (auto split: option.splits)

lemma getDimensions_error: "getDimensions pls = Inl e \<Longrightarrow> e = Runtime_error"
  by (auto simp: getDimensions_def split: list.splits sum.splits option.splits prod.splits
      dest: bounds_loop_error)

lemma LineChart_toString_error: "LineChart_toString f axis margin pls l = Inl e \<Longrightarrow> e = Runtime_error"
  by (auto simp: LineChart_toString_def polylineToString_def axisString_def Let_def
      split: if_splits sum.splits option.splits
      dest!: concat_results_error dest: getDimensions_error)

lemma toString_error: "toString f s l = Inl e \<Longrightarrow> e = Runtime_error"
  by (cases s) (auto dest: LineChart_toString_error)


lemma set_marker_body: "set (marker_body rs) \<subseteq> set rs \<union> {Inr (tab @ tab), Inr nl}"
  by (induction rs rule: marker_body.induct) auto

lemma marker_body_total:
  "list_all (\<lambda>r. \<exists>s. r = Inr s) rs \<Longrightarrow> list_all (\<lambda>r. \<exists>s. r = Inr s) (marker_body rs)"
  by (induction rs rule: marker_body.induct) auto

lemma Marker_toString_pieces:
  "Marker_toString f m l =
     (if getId m = [] then Inl Invalid_argument else concat_results (marker_pieces f m))"
  by (cases m) (simp add: marker_pieces_def del: concat_results.simps)

lemma marker_pieces_error:
  assumes "Inl e \<in> set (marker_pieces f m)"
  shows "e = Runtime_error"
proof -
  from assms have "Inl e \<in> set (marker_body (map (\<lambda>s. toString f s UNCHANGED) (marker_shapes m)))"
    by (cases m) (simp add: marker_pieces_def)
  then have "Inl e \<in> set (map (\<lambda>s. toString f s UNCHANGED) (marker_shapes m))"
    using set_marker_body by fastforce
  then show ?thesis by (auto dest: toString_error [OF sym])
qed

lemma marker_pieces_total:
  assumes "list_all wf_shape (marker_shapes m)"
  shows "list_all (\<lambda>r. \<exists>s. r = Inr s) (marker_pieces f m)"
proof -
  from assms
  have "list_all (\<lambda>r. \<exists>s. r = Inr s) (map (\<lambda>s. toString f s UNCHANGED) (marker_shapes m))"
    by (simp add: list_all_iff toString_total)
  then have "list_all (\<lambda>r. \<exists>s. r = Inr s)
      (marker_body (map (\<lambda>s. toString f s UNCHANGED) (marker_shapes m)))"
    by (rule marker_body_total)
  then show ?thesis by (cases m) (simp add: marker_pieces_def)
qed

lemma Marker_toString_error:
  "Marker_toString f m l = Inl e \<Longrightarrow> getId m \<noteq> [] \<Longrightarrow> e = Runtime_error"
  by (auto simp: Marker_toString_pieces dest!: concat_results_error marker_pieces_error)

lemma Marker_toString_total:
  "list_all wf_shape (marker_shapes m) \<Longrightarrow> getId m \<noteq> [] \<Longrightarrow> \<exists>out. Marker_toString f m l = Inr out"
  by (simp add: Marker_toString_pieces concat_results_total marker_pieces_total)

lemma first_error_interleave:
  "list_all (\<lambda>r. \<exists>s. r = Inr s) xs \<Longrightarrow> list_all (\<lambda>r. \<exists>s. r = Inr s) ys \<Longrightarrow>
     first_error (interleave xs ys) = None"
  by (induction xs ys rule: interleave.induct) auto

lemma Marker_neq_total:
  assumes "marker_ok a" "marker_ok b"
  shows "\<exists>r. Marker_neq f a b = Inr r"
proof -
  obtain i mw mh rx ry orient shapes where a: "a = Marker i mw mh rx ry orient shapes"
    by (cases a)
  obtain i' mw' mh' rx' ry' orient' shapes' where b: "b = Marker i' mw' mh' rx' ry' orient' shapes'"
    by (cases b)
  have "list_all (\<lambda>r. \<exists>s. r = Inr s) (map (\<lambda>s. toString f s Layout_default) shapes)"
    and "list_all (\<lambda>r. \<exists>s. r = Inr s) (map (\<lambda>s. toString f s Layout_default) shapes')"
    using assms by (simp_all add: a b marker_ok_def list_all_iff toString_total)
  then have "first_error (interleave (map (\<lambda>s. toString f s Layout_default) shapes)
                (map (\<lambda>s. toString f s Layout_default) shapes')) = None"
    by (rule first_error_interleave)
  then show ?thesis by (auto simp: a b Let_def)
qed

lemma collisions_total:
  assumes "wf_shape node" "marker_ok i" "list_all marker_ok js"
  shows "\<exists>ds. collisions f l node i js = Inr ds"
  using assms(3)
proof (induction js)
  case Nil
  show ?case by simp
next
  case (Cons j js)
  then obtain ds where ds: "collisions f l node i js = Inr ds" by auto
  obtain r where r: "Marker_neq f i j = Inr r"
    using Marker_neq_total [OF assms(2), of j f] Cons.prems by auto
  obtain s where s: "toString f node l = Inr s"
    using toString_total [OF assms(1)] by blast
  show ?case by (simp add: ds r s)
qed

lemma list_all_MarkerSet_insert:
  "P m \<Longrightarrow> list_all P ms \<Longrightarrow> list_all P (MarkerSet_insert m ms)"
  by (simp add: MarkerSet_insert_def list_all_iff set_insort_key)

lemma collect_node_total:
  assumes "wf_shape node"
  shows "list_all marker_ok markers \<Longrightarrow> list_all valid markers \<Longrightarrow>
         list_all marker_ok used \<Longrightarrow> list_all valid used \<Longrightarrow>
     \<exists>ds ms. collect_node f l node markers used = Inr (ds, ms)
       \<and> list_all marker_ok ms \<and> list_all valid ms"
proof (induction markers arbitrary: used)
  case Nil
  then show ?case by simp
next
  case (Cons i markers)
  obtain ds where ds: "collisions f l node i used = Inr ds"
    using collisions_total [OF assms, of i used f l] Cons.prems by auto
  have "list_all marker_ok (MarkerSet_insert i used)" "list_all valid (MarkerSet_insert i used)"
    using Cons.prems by (simp_all add: list_all_MarkerSet_insert)
  then obtain ds' ms where "collect_node f l node markers (MarkerSet_insert i used) = Inr (ds', ms)"
    "list_all marker_ok ms" "list_all valid ms"
    using Cons.IH [of "MarkerSet_insert i used"] Cons.prems by auto
  then show ?case by (simp add: ds)
qed

lemma insert_if_valid_ok:
  "marker_option_ok mo \<Longrightarrow> list_all marker_ok ms \<Longrightarrow> list_all valid ms \<Longrightarrow>
     list_all marker_ok (insert_if_valid mo ms) \<and> list_all valid (insert_if_valid mo ms)"
  by (cases mo) (simp_all add: insert_if_valid_def marker_option_ok_def list_all_MarkerSet_insert)

lemma getUsedMarkers_ok:
  "markerable_ok m \<Longrightarrow> list_all marker_ok (getUsedMarkers m) \<and> list_all valid (getUsedMarkers m)"
proof (cases m)
  case (Markerable a b c)
  assume "markerable_ok m"
  then have ok: "marker_option_ok a" "marker_option_ok b" "marker_option_ok c"
    by (simp_all add: Markerable)
  have 1: "list_all marker_ok (insert_if_valid a []) \<and> list_all valid (insert_if_valid a [])"
    using insert_if_valid_ok [OF ok(1), of "[]"] by simp
  have 2: "list_all marker_ok (insert_if_valid b (insert_if_valid a []))
         \<and> list_all valid (insert_if_valid b (insert_if_valid a []))"
    using insert_if_valid_ok [OF ok(2)] 1 by blast
  show ?thesis using insert_if_valid_ok [OF ok(3)] 2 by (simp add: Markerable)
qed

lemma collect_markers_total:
  "list_all node_wf nodes \<Longrightarrow> list_all marker_ok used \<Longrightarrow> list_all valid used \<Longrightarrow>
     \<exists>ds ms. collect_markers f l nodes used = Inr (ds, ms)
       \<and> list_all marker_ok ms \<and> list_all valid ms"
proof (induction nodes arbitrary: used)
  case Nil
  then show ?case by simp
next
  case (Cons node nodes)
  show ?case
  proof (cases "as_Markerable node")
    case None
    then show ?thesis using Cons by simp
  next
    case (Some m)
    then have wf: "wf_shape node" and m: "markerable_ok m"
      using Cons.prems(1) by (simp_all add: node_wf_def)
    obtain ds ms where 1: "collect_node f l node (getUsedMarkers m) used = Inr (ds, ms)"
      "list_all marker_ok ms" "list_all valid ms"
      using collect_node_total [OF wf, of "getUsedMarkers m" used f l] getUsedMarkers_ok [OF m]
        Cons.prems by blast
    obtain ds' ms' where "collect_markers f l nodes ms = Inr (ds', ms')"
      "list_all marker_ok ms'" "list_all valid ms'"
      using Cons.IH [OF _ 1(2) 1(3)] Cons.prems(1) by auto
    then show ?thesis by (simp add: Some 1)
  qed
qed

lemma defs_string_total:
  "list_all marker_ok ms \<Longrightarrow> list_all valid ms \<Longrightarrow> \<exists>out. defs_string f l ms = Inr out"
proof -
  assume ok: "list_all marker_ok ms" and v: "list_all valid ms"
  have "list_all (\<lambda>r. \<exists>s. r = Inr s)
          ([Inr (elemStart ''defs'' True)] @ map (\<lambda>m. Marker_toString f m l) ms
           @ [Inr (tab @ elemEnd ''defs'')])"
    using ok v Marker_toString_total
    by (simp add: list_all_iff marker_ok_def valid_def)
  then have "\<exists>out. concat_results
          ([Inr (elemStart ''defs'' True)] @ map (\<lambda>m. Marker_toString f m l) ms
           @ [Inr (tab @ elemEnd ''defs'')]) = Inr out"
    by (rule concat_results_total)
  then show ?thesis
    by (simp add: defs_string_def del: concat_results.simps)
qed

lemma body_string_total: "list_all wf_shape nodes \<Longrightarrow> \<exists>out. body_string f l nodes = Inr out"
  unfolding body_string_def
  by (rule concat_results_total) (simp add: list_all_iff toString_total)

lemma emit_total:
  assumes "list_all node_wf (body_nodes d)"
  shows "\<exists>out ds. emit f d = Inr (out, ds)"
proof -
  obtain ds ms where 1: "collect_markers f (doc_layout d) (body_nodes d) [] = Inr (ds, ms)"
    "list_all marker_ok ms" "list_all valid ms"
    using collect_markers_total [OF assms, of "[]" f "doc_layout d"] by auto
  obtain defs where 2: "defs_string f (doc_layout d) ms = Inr defs"
    using defs_string_total [OF 1(2) 1(3)] by blast
  have "list_all wf_shape (body_nodes d)"
    using assms by (simp add: list_all_iff node_wf_def)
  then obtain body where 3: "body_string f (doc_layout d) (body_nodes d) = Inr body"
    using body_string_total by blast
  show ?thesis by (simp add: emit_def 1 2 3)
qed

lemma node_wf_sort_phase: "list_all node_wf (body_nodes d) \<Longrightarrow> list_all node_wf (body_nodes (sort_phase d))"
  by (simp add: sort_phase_def list_all_iff)

lemma Document_toString_total:
  "list_all node_wf (body_nodes d) \<Longrightarrow> \<exists>out. fst (Document_toString f d) = Inr out"
  using emit_total [OF node_wf_sort_phase, of d f]
  by (auto simp: Document_toString_def writeToStream_def)


subsection \<open>Marker without identifier\<close>

text \<open>
  C5. \<^verbatim>\<open>Marker::toString\<close> throws \<^verbatim>\<open>std::invalid_argument\<close> exactly when the identifier
  is empty. For a marker whose shapes were built through the interface it raises
  if and only if the identifier is empty, and returns a string otherwise.
\<close>

theorem marker_without_id_raises:
  "(Marker_toString f m l = Inl Invalid_argument \<longleftrightarrow> getId m = [])
   \<and> (list_all wf_shape (marker_shapes m) \<longrightarrow>
        ((\<exists>e. Marker_toString f m l = Inl e) \<longleftrightarrow> getId m = [])
        \<and> (getId m \<noteq> [] \<longrightarrow> (\<exists>out. Marker_toString f m l = Inr out)))"
proof -
  have a: "Marker_toString f m l = Inl Invalid_argument" if "getId m = []"
    using that by (cases m) simp
  have b: "Marker_toString f m l \<noteq> Inl Invalid_argument" if "getId m \<noteq> []"
    using Marker_toString_error [of f m l Invalid_argument] that by auto
  have c: "\<exists>out. Marker_toString f m l = Inr out"
    if "list_all wf_shape (marker_shapes m)" "getId m \<noteq> []"
    using that by (rule Marker_toString_total)
  have d: "(\<exists>e. Marker_toString f m l = Inl e) \<longleftrightarrow> getId m = []"
    if wf: "list_all wf_shape (marker_shapes m)"
  proof (cases "getId m = []")
    case True
    then show ?thesis using a by simp
  next
    case False
    then obtain out where "Marker_toString f m l = Inr out" using c [OF wf] by blast
    then show ?thesis using False by simp
  qed
  show ?thesis using a b c d by blast
qed


theorem marker_without_id_raises_witness:
  "Marker_toString fmt_integral (new_Marker [] 10 10 5 5 red_dot ''auto'') Layout_default
     = Inl Invalid_argument
   \<and> list_all wf_shape (marker_shapes (new_Marker ''m1'' 10 10 5 5 red_dot ''auto''))
   \<and> (\<exists>out. Marker_toString fmt_integral (new_Marker ''m1'' 10 10 5 5 red_dot ''auto'')
               Layout_default = Inr out)"
  using marker_without_id_raises
          [of fmt_integral "new_Marker [] 10 10 5 5 red_dot ''auto''" Layout_default]
        marker_without_id_raises
          [of fmt_integral "new_Marker ''m1'' 10 10 5 5 red_dot ''auto''" Layout_default]
  by (simp add: new_Marker_def red_dot_def new_Circle_def)

subsection \<open>Order of the body nodes\<close>

lemma inserted_append: "inserted (xs @ ys) = inserted xs @ inserted ys"
  by (induction xs rule: inserted.induct) simp_all

lemma sort_key_sorted_prefix:
  "sort_key g (sort_key g xs @ ys) = sort_key g (xs @ ys)"
proof (rule properties_for_sort_key)
  show "mset (sort_key g (xs @ ys)) = mset (sort_key g xs @ ys)" by simp
  show "sorted (map g (sort_key g (xs @ ys)))" by simp
  fix k
  have "filter (\<lambda>x. g x = g k) (sort_key g (xs @ ys)) = filter (\<lambda>x. g x = g k) (sort_key g xs @ ys)"
    by (simp add: sort_key_stable)
  then show "filter (\<lambda>x. g k = g x) (sort_key g (xs @ ys)) = filter (\<lambda>x. g k = g x) (sort_key g xs @ ys)"
    by (simp add: eq_commute [of "g k"])
qed

lemma doc_inv_sort_phase: "doc_inv d ins \<Longrightarrow> doc_inv (sort_phase d) ins"
  by (auto simp: doc_inv_def sort_phase_def sort_key_id_if_sorted)

lemma doc_inv_add_shape: "doc_inv d ins \<Longrightarrow> doc_inv (add_shape d s) (ins @ [s])"
  unfolding doc_inv_def add_shape_def
  by (auto simp: sort_key_sorted_prefix [symmetric, of shape_z "body_nodes d"] sort_key_sorted_prefix [symmetric, of shape_z ins])


lemma doc_inv_add_animation: "doc_inv d ins \<Longrightarrow> doc_inv (add_animation d a) ins"
  by (simp add: doc_inv_def add_animation_def)

lemma doc_inv_file_name: "doc_inv d ins \<Longrightarrow> doc_inv (d\<lparr>file_name := n\<rparr>) ins"
  by (simp add: doc_inv_def)

lemma snd_Document_toString: "snd (Document_toString f d) = sort_phase d"
  by (simp add: Document_toString_def writeToStream_def)

lemma save_document:
  "fst (snd (save f co sg d filename a)) = d\<lparr>file_name := save_name d filename a\<rparr>
   \<or> fst (snd (save f co sg d filename a)) = sort_phase (d\<lparr>file_name := save_name d filename a\<rparr>)"
  by (simp add: save_def Let_def writeToStream_def split: sum.splits prod.splits)

lemma doc_inv_apply_op:
  "doc_inv d ins \<Longrightarrow> doc_inv (apply_op f co sg d opn) (ins @ inserted [opn])"
proof (cases opn)
  case (Call_save filename a)
  assume "doc_inv d ins"
  then show ?thesis
    using save_document [of f co sg d filename a]
    by (auto simp: Call_save doc_inv_file_name doc_inv_sort_phase)
qed (simp_all add: doc_inv_add_shape doc_inv_add_animation snd_Document_toString doc_inv_sort_phase)

lemma doc_inv_Document: "doc_inv (Document l) []"
  by (simp add: doc_inv_def Document_def)

lemma doc_inv_run: "doc_inv (run f co sg l ops) (inserted ops)"
proof (induction ops rule: rev_induct)
  case Nil
  show ?case by (simp add: run_def doc_inv_Document)
next
  case (snoc opn ops)
  then show ?case
    using doc_inv_apply_op [of "run f co sg l ops" "inserted ops" f co sg opn]
    by (simp add: run_def inserted_append)
qed

lemma doc_layout_apply_op: "doc_layout (apply_op f co sg d opn) = doc_layout d"
proof (cases opn)
  case (Call_save filename a)
  show ?thesis
    using save_document [of f co sg d filename a]
    by (auto simp: Call_save sort_phase_def)
qed (simp_all add: add_shape_def add_animation_def snd_Document_toString sort_phase_def)

lemma doc_layout_run: "doc_layout (run f co sg l ops) = l"
  by (induction ops rule: rev_induct) (simp_all add: run_def doc_layout_apply_op Document_def)

lemma all_zero_sorted: "list_all (\<lambda>s. shape_z s = 0) ins \<Longrightarrow> sort_key shape_z ins = ins"
proof -
  assume "list_all (\<lambda>s. shape_z s = 0) ins"
  then have "map shape_z ins = replicate (length ins) 0"
    by (induction ins) simp_all
  then have "sorted (map shape_z ins)" by (simp add: sorted_replicate)
  then show ?thesis by (rule sort_key_id_if_sorted)
qed

lemma not_ex_nonzero: "\<not> list_ex (\<lambda>s. shape_z s \<noteq> 0) ins \<Longrightarrow> list_all (\<lambda>s. shape_z s = 0) ins"
  by (induction ins) simp_all

lemma sort_phase_order: "doc_inv d ins \<Longrightarrow> body_nodes (sort_phase d) = sort_key shape_z ins"
proof -
  assume inv: "doc_inv d ins"
  show ?thesis
  proof (cases "needs_sorting d")
    case True
    then show ?thesis using inv by (simp add: sort_phase_def doc_inv_def)
  next
    case False
    then have "body_nodes d = ins" and "list_all (\<lambda>s. shape_z s = 0) ins"
      using inv by (simp_all add: doc_inv_def not_ex_nonzero)
    then show ?thesis using False
      by (simp add: sort_phase_def all_zero_sorted)
  qed
qed

lemma sort_phase_fields:
  "doc_layout (sort_phase d) = doc_layout d"
  "animation_nodes (sort_phase d) = animation_nodes d"
  "preamble f (sort_phase d) = preamble f d"
  by (simp_all add: sort_phase_def preamble_def)

lemma concat_results_strings:
  "concat_results (map g xs) = Inr out \<Longrightarrow>
     \<exists>strs. list_all2 (\<lambda>x str. g x = Inr str) xs strs \<and> out = concat strs"
proof (induction xs arbitrary: out)
  case Nil
  then show ?case by simp
next
  case (Cons x xs)
  from Cons.prems obtain s t where s: "g x = Inr s" and t: "concat_results (map g xs) = Inr t"
    and out: "out = s @ t"
    by (cases "g x"; cases "concat_results (map g xs)") auto
  from Cons.IH [OF t] obtain strs where "list_all2 (\<lambda>x str. g x = Inr str) xs strs" "t = concat strs"
    by blast
  then have "list_all2 (\<lambda>x str. g x = Inr str) (x # xs) (s # strs) \<and> out = concat (s # strs)"
    using s out by simp
  then show ?case by blast
qed

lemma defs_string_strings:
  "defs_string f l ms = Inr defs \<Longrightarrow>
     \<exists>mstrs. list_all2 (\<lambda>m str. Marker_toString f m l = Inr str) ms mstrs
       \<and> defs = (if ms = [] then []
                  else elemStart ''defs'' True @ concat mstrs @ tab @ elemEnd ''defs'')"
proof (cases "ms = []")
  case True
  assume "defs_string f l ms = Inr defs"
  then show ?thesis using True by (simp add: defs_string_def)
next
  case False
  assume d: "defs_string f l ms = Inr defs"
  let ?g = "\<lambda>m. Marker_toString f m l"
  from d False have c: "concat_results (Inr (elemStart ''defs'' True) # (map ?g ms @ [Inr (tab @ elemEnd ''defs'')])) = Inr defs"
    by (simp add: defs_string_def del: concat_results.simps)
  then obtain t where t: "concat_results (map ?g ms @ [Inr (tab @ elemEnd ''defs'')]) = Inr t"
    and defs: "defs = elemStart ''defs'' True @ t"
    by (cases "concat_results (map ?g ms @ [Inr (tab @ elemEnd ''defs'')])") auto
  have "\<exists>mstrs. list_all2 (\<lambda>m str. ?g m = Inr str) ms mstrs \<and> t = concat mstrs @ tab @ elemEnd ''defs''"
    using t
  proof (induction ms arbitrary: t)
    case Nil
    then show ?case by simp
  next
    case (Cons m ms)
    from Cons.prems obtain s u where s: "?g m = Inr s"
      and u: "concat_results (map ?g ms @ [Inr (tab @ elemEnd ''defs'')]) = Inr u"
      and t: "t = s @ u"
      by (cases "?g m"; cases "concat_results (map ?g ms @ [Inr (tab @ elemEnd ''defs'')])") auto
    from Cons.IH [OF u] obtain mstrs where
      "list_all2 (\<lambda>m str. ?g m = Inr str) ms mstrs" "u = concat mstrs @ tab @ elemEnd ''defs''"
      by blast
    then have "list_all2 (\<lambda>m str. ?g m = Inr str) (m # ms) (s # mstrs)
        \<and> t = concat (s # mstrs) @ tab @ elemEnd ''defs''"
      using s t by simp
    then show ?case by blast
  qed
  then show ?thesis using False defs by auto
qed

lemma emit_strings:
  assumes "emit f d = Inr (out, ds)"
  shows "\<exists>ds' ms mstrs strs.
       collect_markers f (doc_layout d) (body_nodes d) [] = Inr (ds', ms)
     \<and> list_all2 (\<lambda>m str. Marker_toString f m (doc_layout d) = Inr str) ms mstrs
     \<and> list_all2 (\<lambda>s str. toString f s (doc_layout d) = Inr str) (body_nodes d) strs
     \<and> out = preamble f d
             @ (if ms = [] then []
                else elemStart ''defs'' True @ concat mstrs @ tab @ elemEnd ''defs'')
             @ concat strs
             @ concat (map (\<lambda>a. snd (animation_toString f a (doc_layout d))) (animation_nodes d))
             @ elemEnd ''svg''"
proof -
  from assms obtain ds' ms defs body where
    c: "collect_markers f (doc_layout d) (body_nodes d) [] = Inr (ds', ms)"
    and dd: "defs_string f (doc_layout d) ms = Inr defs"
    and b: "body_string f (doc_layout d) (body_nodes d) = Inr body"
    and out: "out = preamble f d @ defs @ body
               @ animations_string f (doc_layout d) (animation_nodes d) @ elemEnd ''svg''"
    by (auto simp: emit_def split: sum.splits prod.splits)
  from defs_string_strings [OF dd] obtain mstrs where
    m: "list_all2 (\<lambda>m str. Marker_toString f m (doc_layout d) = Inr str) ms mstrs"
    and defs: "defs = (if ms = [] then []
                  else elemStart ''defs'' True @ concat mstrs @ tab @ elemEnd ''defs'')"
    by blast
  from b have "concat_results (map (\<lambda>s. toString f s (doc_layout d)) (body_nodes d)) = Inr body"
    by (simp add: body_string_def)
  from concat_results_strings [OF this] obtain strs where
    s: "list_all2 (\<lambda>s str. toString f s (doc_layout d) = Inr str) (body_nodes d) strs"
    and body: "body = concat strs"
    by blast
  show ?thesis
    using c m s unfolding out defs body animations_string_def by blast
qed

lemma set_body_nodes_run: "set (body_nodes (run f co sg l ops)) = set (inserted ops)"
proof -
  have "sort_key shape_z (body_nodes (run f co sg l ops)) = sort_key shape_z (inserted ops)"
    using doc_inv_run [of f co sg l ops] by (simp add: doc_inv_def)
  then have "set (sort_key shape_z (body_nodes (run f co sg l ops)))
      = set (sort_key shape_z (inserted ops))"
    by simp
  then show ?thesis by simp
qed

text \<open>
  C2. After any sequence of calls on a new document, \<^verbatim>\<open>toString\<close> leaves and writes the
  body nodes in the order of the stable sort by \<open>z\<close> of the appended shapes: ascending
  in \<open>z\<close>, and for every value \<open>k\<close> the nodes with \<open>z = k\<close> in their order of insertion. If
  every appended shape has \<open>z = 0\<close> the order is the insertion order. The output is the
  preamble, the definitions of the markers collected from the nodes, then the
  serialization of every node, each written by its own \<^verbatim>\<open>toString\<close>, in that order,
  then the animations and the closing tag; and there is an output whenever every
  appended shape is built through the interface (\<open>node_wf\<close>: no chart, in the shape or
  in its markers, holds a polyline without points).
\<close>

theorem z_order:
  "body_nodes (snd (Document_toString f (run f co sg l ops))) = sort_key shape_z (inserted ops)
   \<and> sorted (map shape_z (sort_key shape_z (inserted ops)))
   \<and> filter (\<lambda>s. shape_z s = k) (sort_key shape_z (inserted ops))
       = filter (\<lambda>s. shape_z s = k) (inserted ops)
   \<and> (list_all (\<lambda>s. shape_z s = 0) (inserted ops) \<longrightarrow>
        body_nodes (snd (Document_toString f (run f co sg l ops))) = inserted ops)
   \<and> (fst (Document_toString f (run f co sg l ops)) = Inr out \<longrightarrow>
        (\<exists>ds ms mstrs strs.
            collect_markers f l (sort_key shape_z (inserted ops)) [] = Inr (ds, ms)
          \<and> list_all2 (\<lambda>m str. Marker_toString f m l = Inr str) ms mstrs
          \<and> list_all2 (\<lambda>s str. toString f s l = Inr str) (sort_key shape_z (inserted ops)) strs
          \<and> out = preamble f (run f co sg l ops)
                  @ (if ms = [] then []
                     else elemStart ''defs'' True @ concat mstrs @ tab @ elemEnd ''defs'')
                  @ concat strs
                  @ concat (map (\<lambda>a. snd (animation_toString f a l))
                                (animation_nodes (run f co sg l ops)))
                  @ elemEnd ''svg''))
   \<and> (list_all node_wf (inserted ops) \<longrightarrow>
        (\<exists>written. fst (Document_toString f (run f co sg l ops)) = Inr written))"
proof -
  let ?d = "run f co sg l ops"
  have order: "body_nodes (sort_phase ?d) = sort_key shape_z (inserted ops)"
    using doc_inv_run by (rule sort_phase_order)
  have total: "\<exists>written. fst (Document_toString f ?d) = Inr written"
    if "list_all node_wf (inserted ops)"
  proof -
    from that have "list_all node_wf (body_nodes ?d)"
      by (simp add: list_all_iff set_body_nodes_run)
    then show ?thesis by (rule Document_toString_total)
  qed
  have out: "\<exists>ds ms mstrs strs.
            collect_markers f l (sort_key shape_z (inserted ops)) [] = Inr (ds, ms)
          \<and> list_all2 (\<lambda>m str. Marker_toString f m l = Inr str) ms mstrs
          \<and> list_all2 (\<lambda>s str. toString f s l = Inr str) (sort_key shape_z (inserted ops)) strs
          \<and> out = preamble f ?d
                  @ (if ms = [] then []
                     else elemStart ''defs'' True @ concat mstrs @ tab @ elemEnd ''defs'')
                  @ concat strs
                  @ concat (map (\<lambda>a. snd (animation_toString f a l)) (animation_nodes ?d))
                  @ elemEnd ''svg''"
    if "fst (Document_toString f ?d) = Inr out"
  proof -
    from that obtain ds where "emit f (sort_phase ?d) = Inr (out, ds)"
      by (cases "emit f (sort_phase ?d)") (auto simp: Document_toString_def writeToStream_def)
    from emit_strings [OF this] show ?thesis
      by (simp add: order doc_layout_run sort_phase_fields)
  qed
  show ?thesis
    using order out total by (simp add: snd_Document_toString sort_key_stable all_zero_sorted)
qed


lemma node_wf_labelled: "node_wf (labelled name k)"
  by (simp add: labelled_def setId_def set_z_def new_Circle_def node_wf_def)

lemma ident_labelled: "ident (base_of (labelled name k)) = name"
  by (simp add: labelled_def setId_def set_z_def new_Circle_def)

lemma shape_z_labelled: "shape_z (labelled name k) = k"
  by (simp add: labelled_def setId_def set_z_def new_Circle_def shape_z_def)

theorem z_order_witness:
  "fst (Document_toString fmt_integral (run fmt_integral writable writable Layout_default z_example))
     = Inr z_example_output
   \<and> map (\<lambda>s. ident (base_of s))
       (body_nodes (snd (Document_toString fmt_integral
          (run fmt_integral writable writable Layout_default z_example))))
     = [''e'', ''b'', ''d'', ''c'', ''a'']
   \<and> list_all node_wf (inserted z_example)
   \<and> list_all (\<lambda>s. shape_z s = 0) (inserted zero_example)
   \<and> fst (Document_toString fmt_integral (run fmt_integral writable writable Layout_default zero_example))
     = Inr zero_example_output
   \<and> body_nodes (snd (Document_toString fmt_integral
        (run fmt_integral writable writable Layout_default zero_example)))
     = [labelled ''a'' 0, labelled ''b'' 0]
   \<and> (\<exists>ds ms mstrs strs.
         collect_markers fmt_integral Layout_default (sort_key shape_z (inserted z_example)) []
           = Inr (ds, ms)
       \<and> list_all2 (\<lambda>m str. Marker_toString fmt_integral m Layout_default = Inr str) ms mstrs
       \<and> list_all2 (\<lambda>s str. toString fmt_integral s Layout_default = Inr str)
           [labelled ''e'' (- 1), labelled ''b'' 0, labelled ''d'' 0, labelled ''c'' 1, labelled ''a'' 2]
           strs
       \<and> z_example_output
           = preamble fmt_integral (run fmt_integral writable writable Layout_default z_example)
             @ (if ms = [] then []
                else elemStart ''defs'' True @ concat mstrs @ tab @ elemEnd ''defs'')
             @ concat strs
             @ concat (map (\<lambda>a. snd (animation_toString fmt_integral a Layout_default))
                 (animation_nodes (run fmt_integral writable writable Layout_default z_example)))
             @ elemEnd ''svg'')"
proof -
  let ?d = "run fmt_integral writable writable Layout_default z_example"
  have ins: "inserted z_example =
      [labelled ''a'' 2, labelled ''b'' 0, labelled ''c'' 1, labelled ''d'' 0, labelled ''e'' (- 1)]"
    by (simp add: z_example_def)
  have sorted_ins: "sort_key shape_z (inserted z_example) =
      [labelled ''e'' (- 1), labelled ''b'' 0, labelled ''d'' 0, labelled ''c'' 1, labelled ''a'' 2]"
    by (simp add: ins shape_z_labelled)
  have out: "fst (Document_toString fmt_integral ?d) = Inr z_example_output"
    by code_simp
  have out0: "fst (Document_toString fmt_integral
      (run fmt_integral writable writable Layout_default zero_example)) = Inr zero_example_output"
    by code_simp
  have zero: "inserted zero_example = [labelled ''a'' 0, labelled ''b'' 0]"
    by (simp add: zero_example_def)
  show ?thesis
    using z_order [of fmt_integral writable writable Layout_default z_example 0 z_example_output]
      z_order [of fmt_integral writable writable Layout_default zero_example 0 zero_example_output]
    by (simp add: out out0 ins sorted_ins zero ident_labelled shape_z_labelled node_wf_labelled)
qed

subsection \<open>Serializing twice\<close>

lemma sort_phase_idem: "sort_phase (sort_phase d) = sort_phase d"
  by (simp add: sort_phase_def sort_key_id_if_sorted)

text \<open>
  C9. A second call of \<^verbatim>\<open>toString\<close> right after the first returns the same string (or
  raises the same exception), and leaves the document as the first call left it:
  sorting the sorted nodes again changes nothing. The same holds for what
  \<^verbatim>\<open>writeToStream\<close> writes, diagnostics included.
\<close>

theorem toString_twice:
  "fst (Document_toString f (snd (Document_toString f d))) = fst (Document_toString f d)
   \<and> snd (Document_toString f (snd (Document_toString f d))) = snd (Document_toString f d)
   \<and> fst (writeToStream f (snd (writeToStream f d))) = fst (writeToStream f d)"
  by (simp add: Document_toString_def writeToStream_def sort_phase_idem)


subsection \<open>LineChart\<close>

lemma foldl_min_step:
  "px (foldl min_step m pts) = Min (insert (px m) (px ` set pts))
   \<and> py (foldl min_step m pts) = Min (insert (py m) (py ` set pts))"
proof (induction pts arbitrary: m)
  case Nil
  show ?case by simp
next
  case (Cons p pts)
  have "Min (insert (px (min_step m p)) (px ` set pts)) = Min (insert (px m) (insert (px p) (px ` set pts)))"
    by (cases "pts = []") (auto simp: min_step_def min_def)
  moreover have "Min (insert (py (min_step m p)) (py ` set pts)) = Min (insert (py m) (insert (py p) (py ` set pts)))"
    by (cases "pts = []") (auto simp: min_step_def min_def)
  ultimately show ?case using Cons [of "min_step m p"] by simp
qed


lemma foldl_max_step:
  "px (foldl max_step m pts) = Max (insert (px m) (px ` set pts))
   \<and> py (foldl max_step m pts) = Max (insert (py m) (py ` set pts))"
proof (induction pts arbitrary: m)
  case Nil
  show ?case by simp
next
  case (Cons p pts)
  have "Max (insert (px (max_step m p)) (px ` set pts)) = Max (insert (px m) (insert (px p) (px ` set pts)))"
    by (cases "pts = []") (auto simp: max_step_def max_def)
  moreover have "Max (insert (py (max_step m p)) (py ` set pts)) = Max (insert (py m) (insert (py p) (py ` set pts)))"
    by (cases "pts = []") (auto simp: max_step_def max_def)
  ultimately show ?case using Cons [of "max_step m p"] by simp
qed

lemma getMinPoint_bbox:
  "pts \<noteq> [] \<Longrightarrow> \<exists>a. getMinPoint pts = Some a \<and> px a = Min (px ` set pts) \<and> py a = Min (py ` set pts)"
  using foldl_min_step [of "hd pts" pts]
  by (cases pts) (simp_all add: getMinPoint_def)

lemma getMaxPoint_bbox:
  "pts \<noteq> [] \<Longrightarrow> \<exists>a. getMaxPoint pts = Some a \<and> px a = Max (px ` set pts) \<and> py a = Max (py ` set pts)"
  using foldl_max_step [of "hd pts" pts]
  by (cases pts) (simp_all add: getMaxPoint_def)

lemma px_min_step: "px (min_step m a) = min (px m) (px a)" "py (min_step m a) = min (py m) (py a)"
  by (auto simp: min_step_def min_def)

lemma px_max_step: "px (max_step m a) = max (px m) (px a)" "py (max_step m a) = max (py m) (py a)"
  by (auto simp: max_step_def max_def)

lemma Min_insert_Un:
  "finite A \<Longrightarrow> A \<noteq> {} \<Longrightarrow> finite B \<Longrightarrow>
     Min (insert (min (x::real) (Min A)) B) = Min (insert x (A \<union> B))"
  by (cases "B = {}") (simp_all add: Min_Un min.assoc)

lemma Max_insert_Un:
  "finite A \<Longrightarrow> A \<noteq> {} \<Longrightarrow> finite B \<Longrightarrow>
     Max (insert (max (x::real) (Max A)) B) = Max (insert x (A \<union> B))"
  by (cases "B = {}") (simp_all add: Max_Un max.assoc)

lemma bounds_loop_bbox:
  "list_all (\<lambda>pl. points pl \<noteq> []) pls \<Longrightarrow>
     \<exists>mn' mx'. bounds_loop pls (Some mn) (Some mx) = Inr (Some mn', Some mx')
       \<and> px mn' = Min (insert (px mn) (px ` set (all_points pls)))
       \<and> py mn' = Min (insert (py mn) (py ` set (all_points pls)))
       \<and> px mx' = Max (insert (px mx) (px ` set (all_points pls)))
       \<and> py mx' = Max (insert (py mx) (py ` set (all_points pls)))"
proof (induction pls arbitrary: mn mx)
  case Nil
  show ?case by (simp add: all_points_def)
next
  case (Cons pl pls)
  then have ne: "points pl \<noteq> []" and rest: "list_all (\<lambda>pl. points pl \<noteq> []) pls"
    by simp_all
  obtain a where a: "getMinPoint (points pl) = Some a"
    "px a = Min (px ` set (points pl))" "py a = Min (py ` set (points pl))"
    using getMinPoint_bbox [OF ne] by blast
  obtain b where b: "getMaxPoint (points pl) = Some b"
    "px b = Max (px ` set (points pl))" "py b = Max (py ` set (points pl))"
    using getMaxPoint_bbox [OF ne] by blast
  obtain mn' mx' where l: "bounds_loop pls (Some (min_step mn a)) (Some (max_step mx b)) = Inr (Some mn', Some mx')"
    "px mn' = Min (insert (px (min_step mn a)) (px ` set (all_points pls)))"
    "py mn' = Min (insert (py (min_step mn a)) (py ` set (all_points pls)))"
    "px mx' = Max (insert (px (max_step mx b)) (px ` set (all_points pls)))"
    "py mx' = Max (insert (py (max_step mx b)) (py ` set (all_points pls)))"
    using Cons.IH [OF rest, of "min_step mn a" "max_step mx b"] by blast
  have fin: "finite (px ` set (points pl))" "px ` set (points pl) \<noteq> {}"
    "finite (py ` set (points pl))" "py ` set (points pl) \<noteq> {}"
    "finite (px ` set (all_points pls))" "finite (py ` set (all_points pls))"
    using ne by simp_all
  have pts: "set (all_points (pl # pls)) = set (points pl) \<union> set (all_points pls)"
    by (simp add: all_points_def)
  show ?case
    using l a b
    by (simp add: px_min_step px_max_step pts image_Un
        Min_insert_Un [OF fin(1) fin(2) fin(5)] Min_insert_Un [OF fin(3) fin(4) fin(6)]
        Max_insert_Un [OF fin(1) fin(2) fin(5)] Max_insert_Un [OF fin(3) fin(4) fin(6)])
qed

lemma getDimensions_bbox:
  assumes wf: "list_all (\<lambda>pl. points pl \<noteq> []) pls" and ne: "pls \<noteq> []"
  shows "getDimensions pls = Inr (Some (Dimensions (bbox_width pls) (bbox_height pls)))"
proof -
  obtain pl0 rest where pls: "pls = pl0 # rest" using ne by (cases pls) auto
  then have ne0: "points pl0 \<noteq> []" using wf by simp
  obtain a where a: "getMinPoint (points pl0) = Some a"
    "px a = Min (px ` set (points pl0))" "py a = Min (py ` set (points pl0))"
    using getMinPoint_bbox [OF ne0] by blast
  obtain b where b: "getMaxPoint (points pl0) = Some b"
    "px b = Max (px ` set (points pl0))" "py b = Max (py ` set (points pl0))"
    using getMaxPoint_bbox [OF ne0] by blast
  obtain mn mx where l: "bounds_loop pls (Some a) (Some b) = Inr (Some mn, Some mx)"
    "px mn = Min (insert (px a) (px ` set (all_points pls)))"
    "py mn = Min (insert (py a) (py ` set (all_points pls)))"
    "px mx = Max (insert (px b) (px ` set (all_points pls)))"
    "py mx = Max (insert (py b) (py ` set (all_points pls)))"
    using bounds_loop_bbox [OF wf, of a b] by blast
  have sub: "set (points pl0) \<subseteq> set (all_points pls)"
    by (auto simp: all_points_def pls)
  have mono: "g ` set (points pl0) \<subseteq> g ` set (all_points pls)" for g :: "point \<Rightarrow> real"
    using sub by blast
  have mem: "Min (g ` set (points pl0)) \<in> g ` set (points pl0)"
    "Max (g ` set (points pl0)) \<in> g ` set (points pl0)" for g :: "point \<Rightarrow> real"
    using ne0 by (simp_all)
  have in_x: "px a \<in> px ` set (all_points pls)" "px b \<in> px ` set (all_points pls)"
    and in_y: "py a \<in> py ` set (all_points pls)" "py b \<in> py ` set (all_points pls)"
    using a b mono [of px] mono [of py] mem [of px] mem [of py] by auto
  have "px mn = Min (px ` set (all_points pls))" "py mn = Min (py ` set (all_points pls))"
    "px mx = Max (px ` set (all_points pls))" "py mx = Max (py ` set (all_points pls))"
    using l in_x in_y by (simp_all add: insert_absorb)
  moreover have "getDimensions pls =
      (case bounds_loop pls (Some a) (Some b) of
         Inl e \<Rightarrow> Inl e
       | Inr (Some mn, Some mx) \<Rightarrow> Inr (Some (Dimensions (px mx - px mn) (py mx - py mn)))
       | Inr _ \<Rightarrow> Inl Runtime_error)"
    using a(1) b(1) by (simp add: pls getDimensions_def del: bounds_loop.simps)
  ultimately show ?thesis
    using l(1) by (simp add: bbox_width_def bbox_height_def)
qed


lemma concat_results_Inr: "concat_results (map Inr xs) = Inr (concat xs)"
  by (induction xs) simp_all

lemma concat_results_snoc:
  "concat_results (map Inr xs @ [Inr y]) = Inr (concat xs @ y)"
  using concat_results_Inr [of "xs @ [y]"] by simp

lemma polylineToString_bbox:
  assumes wf: "list_all (\<lambda>pl. points pl \<noteq> []) pls" and ne: "pls \<noteq> []"
  shows "polylineToString f margin pls pl l =
     Inr (Polyline_toString f (shifted margin pl) l
          @ vertices_string f (bbox_height pls / 60) l (points (shifted margin pl)))"
  by (simp add: polylineToString_def Let_def getDimensions_bbox [OF wf ne] shifted_def
      vertices_string_def vertex_circle_def new_Circle_def Dimensions_def comp_def)

lemma LineChart_add_empty:
  "list_all (\<lambda>pl. points pl = []) added \<Longrightarrow>
     foldl LineChart_add (LineChart b axis margin pls) added = LineChart b axis margin pls"
  by (induction added) simp_all

text \<open>
  C8, as the code has it. For a chart with polylines (each holds a point),
  \<open>getDimensions\<close> is the bounding box of all points of all polylines, and every
  vertex of a polyline is written as a circle whose radius is the height of the
  bounding box divided by 60: the height divided by 30 is passed to the constructor
  of \<open>Circle\<close> as the diameter. The chart is the concatenation of the shifted polylines,
  each followed by its circles, and the axis. A chart to which only polylines
  without points were added serializes to the empty string.
\<close>

theorem linechart_vertices:
  "(list_all (\<lambda>pl. points pl \<noteq> []) pls \<and> pls \<noteq> [] \<longrightarrow>
      getDimensions pls = Inr (Some (Dimensions (bbox_width pls) (bbox_height pls)))
      \<and> polylineToString f margin pls pl l =
          Inr (Polyline_toString f (shifted margin pl) l
               @ vertices_string f (bbox_height pls / 60) l (points (shifted margin pl)))
      \<and> (\<exists>axis_string.
            axisString f axis margin pls l = Inr axis_string
            \<and> toString f (LineChart b axis margin pls) l =
                Inr (concat (map (\<lambda>pl. Polyline_toString f (shifted margin pl) l
                                   @ vertices_string f (bbox_height pls / 60) l
                                       (points (shifted margin pl))) pls)
                     @ axis_string)))
   \<and> (list_all (\<lambda>pl. points pl = []) added \<longrightarrow>
        toString f (foldl LineChart_add (new_LineChart margin axis) added) l = Inr [])"
proof -
  have 1: "\<exists>axis_string.
            axisString f axis margin pls l = Inr axis_string
            \<and> toString f (LineChart b axis margin pls) l =
                Inr (concat (map (\<lambda>pl. Polyline_toString f (shifted margin pl) l
                                   @ vertices_string f (bbox_height pls / 60) l
                                       (points (shifted margin pl))) pls)
                     @ axis_string)"
    if wf: "list_all (\<lambda>pl. points pl \<noteq> []) pls" and ne: "pls \<noteq> []"
  proof -
    obtain a where a: "axisString f axis margin pls l = Inr a"
      using axisString_total [OF wf ne] by blast
    let ?g = "\<lambda>pl. Polyline_toString f (shifted margin pl) l
                 @ vertices_string f (bbox_height pls / 60) l (points (shifted margin pl))"
    have eq: "map (\<lambda>pl. polylineToString f margin pls pl l) pls = map Inr (map ?g pls)"
      by (simp add: polylineToString_bbox [OF wf ne])
    have "LineChart_toString f axis margin pls l = concat_results (map Inr (map ?g pls) @ [Inr a])"
      using ne by (simp only: LineChart_toString_def eq a if_False)
    then have "LineChart_toString f axis margin pls l = Inr (concat (map ?g pls) @ a)"
      by (simp only: concat_results_snoc)
    then show ?thesis using a by simp
  qed
  have 2: "toString f (foldl LineChart_add (new_LineChart margin axis) added) l = Inr []"
    if "list_all (\<lambda>pl. points pl = []) added"
    using that by (simp add: new_LineChart_def LineChart_add_empty LineChart_toString_def)
  show ?thesis
    using 1 2 getDimensions_bbox polylineToString_bbox by blast
qed

theorem linechart_vertices_witness:
  "list_all (\<lambda>pl. points pl \<noteq> []) [new_Polyline [Point 0 0, Point 30 60] Stroke_default]
   \<and> polylineToString fmt_integral (Dimensions1 0)
        [new_Polyline [Point 0 0, Point 30 60] Stroke_default]
        (new_Polyline [Point 0 0, Point 30 60] Stroke_default) Layout_default =
       Inr (Polyline_toString fmt_integral
              (shifted (Dimensions1 0) (new_Polyline [Point 0 0, Point 30 60] Stroke_default))
              Layout_default
            @ vertices_string fmt_integral
                (bbox_height [new_Polyline [Point 0 0, Point 30 60] Stroke_default] / 60)
                Layout_default
                (points (shifted (Dimensions1 0)
                   (new_Polyline [Point 0 0, Point 30 60] Stroke_default))))
   \<and> list_all (\<lambda>pl. points pl = []) [new_Polyline [] Stroke_default]
   \<and> toString fmt_integral
        (foldl LineChart_add (new_LineChart (Dimensions1 0) (Stroke2 1 (Color Purple)))
           [new_Polyline [] Stroke_default]) Layout_default = Inr []"
  using linechart_vertices
          [of "[new_Polyline [Point 0 0, Point 30 60] Stroke_default]"
              fmt_integral "Dimensions1 0"
              "new_Polyline [Point 0 0, Point 30 60] Stroke_default" Layout_default
              "Stroke2 1 (Color Purple)" "Shape Stroke_default"
              "[new_Polyline [] Stroke_default]"]
  by (simp add: new_Polyline_def)

text \<open>
  C8 as stated fails: for a polyline through (0, 0) and (30, 60) the height of the
  bounding box is 60, a thirtieth of it is 2, and the circles are written with
  \<open>r="1"\<close>.
\<close>

lemma chart_example_height:
  "bbox_height [new_Polyline [Point 0 0, Point 30 60] Stroke_default] = 60"
  by (simp add: bbox_height_def all_points_def new_Polyline_def Point_def)

theorem linechart_radius_counterexample:
  \<open>bbox_height [new_Polyline [Point 0 0, Point 30 60] Stroke_default] / 30 = 2
   \<and> toString fmt_integral chart_example Layout_default = Inr (
     tab @ ''<polyline fill="none" points="0,300 30,240 " />'' @ nl
   @ tab @ ''<circle cx="0" cy="300" r="1" fill="rgb(0,0,0)" />'' @ nl
   @ tab @ ''<circle cx="30" cy="240" r="1" fill="rgb(0,0,0)" />'' @ nl
   @ tab @ ''<polyline fill="none" points="0,234 0,300 33,300 " stroke-width="1" stroke="rgb(128,0,128)" stroke-dashoffset="0" />'' @ nl)\<close>
proof -
  have \<open>toString fmt_integral chart_example Layout_default = Inr (
     tab @ ''<polyline fill="none" points="0,300 30,240 " />'' @ nl
   @ tab @ ''<circle cx="0" cy="300" r="1" fill="rgb(0,0,0)" />'' @ nl
   @ tab @ ''<circle cx="30" cy="240" r="1" fill="rgb(0,0,0)" />'' @ nl
   @ tab @ ''<polyline fill="none" points="0,234 0,300 33,300 " stroke-width="1" stroke="rgb(128,0,128)" stroke-dashoffset="0" />'' @ nl)\<close>
    by code_simp
  then show ?thesis by (simp add: chart_example_height)
qed



subsection \<open>Offset and serialization\<close>


























subsection \<open>Marker collisions\<close>

text \<open>
  C6 at an input where the code misses the collision. The markers \<open>marker_dot\<close> and
  \<open>marker_square\<close> share the identifier "m1" and differ in content. Referenced from
  the two ends of one line they yield no diagnostic: \<open>getUsedMarkers\<close> collects the
  markers of a shape into a set keyed by identifier, which drops the second one
  before any comparison; the output defines the first marker only and refers to
  "m1" twice. Referenced from two lines, the same two markers are reported, and one
  marker referenced from two lines is not.
\<close>

theorem marker_collision_same_element:
  \<open>getId marker_dot = getId marker_square
   \<and> valid marker_dot
   \<and> Marker_neq fmt_integral marker_dot marker_square = Inr True
   \<and> fst (writeToStream fmt_integral two_markers_one_line) = Inr (
     ''<?xml version="1.0" standalone="no" ?>'' @ nl
   @ ''<!-- Generator: svg-writer (https://github.com/CodeFinder2/svg-writer), Version: 1.0.0 -->'' @ nl
   @ ''<!DOCTYPE svg PUBLIC "-//W3C//DTD SVG 1.1//EN" "http://www.w3.org/Graphics/SVG/1.1/DTD/svg11.dtd">'' @ nl
   @ ''<svg width="400px" height="300px" xmlns="http://www.w3.org/2000/svg" version="1.1" >'' @ nl
   @ tab @ ''<defs>'' @ nl
   @ tab @ tab @ ''<marker id="m1" markerWidth="10" markerHeight="10" refX="5" refY="5" orient="auto" >'' @ nl
   @ tab @ tab @ tab @ ''<circle cx="5" cy="5" r="5" fill="rgb(255,0,0)" />'' @ nl
   @ tab @ tab @ ''</marker>'' @ nl
   @ tab @ ''</defs>'' @ nl
   @ tab @ ''<line x1="0" y1="300" x2="100" y2="200" stroke-width="1" stroke="rgb(0,0,0)" stroke-dashoffset="0" marker-start="url(#m1)" marker-end="url(#m1)" />'' @ nl
   @ ''</svg>'' @ nl,
     [])
   \<and> map_sum id snd (fst (writeToStream fmt_integral two_markers_two_lines)) =
       Inr [Marker_collision ''m1'' (
     tab @ ''<line x1="0" y1="300" x2="100" y2="200" stroke-width="1" stroke="rgb(0,0,0)" stroke-dashoffset="0" marker-end="url(#m1)" />'' @ nl)]
   \<and> map_sum id snd (fst (writeToStream fmt_integral one_marker_two_lines)) = Inr []\<close>
proof -
  have a: "getId marker_dot = getId marker_square \<and> valid marker_dot"
    by (simp add: marker_dot_def marker_square_def new_Marker_def valid_def)
  have b: "Marker_neq fmt_integral marker_dot marker_square = Inr True"
    by code_simp
  have c: \<open>fst (writeToStream fmt_integral two_markers_one_line) = Inr (
     ''<?xml version="1.0" standalone="no" ?>'' @ nl
   @ ''<!-- Generator: svg-writer (https://github.com/CodeFinder2/svg-writer), Version: 1.0.0 -->'' @ nl
   @ ''<!DOCTYPE svg PUBLIC "-//W3C//DTD SVG 1.1//EN" "http://www.w3.org/Graphics/SVG/1.1/DTD/svg11.dtd">'' @ nl
   @ ''<svg width="400px" height="300px" xmlns="http://www.w3.org/2000/svg" version="1.1" >'' @ nl
   @ tab @ ''<defs>'' @ nl
   @ tab @ tab @ ''<marker id="m1" markerWidth="10" markerHeight="10" refX="5" refY="5" orient="auto" >'' @ nl
   @ tab @ tab @ tab @ ''<circle cx="5" cy="5" r="5" fill="rgb(255,0,0)" />'' @ nl
   @ tab @ tab @ ''</marker>'' @ nl
   @ tab @ ''</defs>'' @ nl
   @ tab @ ''<line x1="0" y1="300" x2="100" y2="200" stroke-width="1" stroke="rgb(0,0,0)" stroke-dashoffset="0" marker-start="url(#m1)" marker-end="url(#m1)" />'' @ nl
   @ ''</svg>'' @ nl,
     [])\<close>
    by code_simp
  have d: \<open>map_sum id snd (fst (writeToStream fmt_integral two_markers_two_lines)) =
       Inr [Marker_collision ''m1'' (
     tab @ ''<line x1="0" y1="300" x2="100" y2="200" stroke-width="1" stroke="rgb(0,0,0)" stroke-dashoffset="0" marker-end="url(#m1)" />'' @ nl)]\<close>
    by code_simp
  have e: "map_sum id snd (fst (writeToStream fmt_integral one_marker_two_lines)) = Inr []"
    by code_simp
  show ?thesis using a b c d e by blast
qed


subsection \<open>Strokes of negative width\<close>

lemma sublist_split:
  assumes "c \<notin> set w"
  shows "sublist w (a @ c # b) \<longleftrightarrow> sublist w a \<or> sublist w b"
proof
  assume "sublist w (a @ c # b)"
  then consider "sublist w a" | "sublist w (c # b)"
    | xs1 xs2 where "w = xs1 @ xs2" "suffix xs1 a" "prefix xs2 (c # b)"
    by (auto simp: sublist_append)
  then show "sublist w a \<or> sublist w b"
  proof cases
    case 1
    then show ?thesis by simp
  next
    case 2
    then have "prefix w (c # b) \<or> sublist w b" by (simp add: sublist_Cons_right)
    moreover have "w = []" if "prefix w (c # b)"
      using that assms by (cases w) auto
    ultimately show ?thesis by auto
  next
    case 3
    have "xs2 = []" using 3(1,3) assms by (cases xs2) auto
    then show ?thesis using 3 by auto
  qed
next
  assume "sublist w a \<or> sublist w b"
  then show "sublist w (a @ c # b)"
  proof
    assume "sublist w a"
    moreover have "sublist a (a @ c # b)" by simp
    ultimately show ?thesis by (rule sublist_order.order.trans)
  next
    assume "sublist w b"
    moreover have "sublist b ((a @ [c]) @ b)" by (rule sublist_append_leftI)
    ultimately have "sublist w ((a @ [c]) @ b)" by (rule sublist_order.order.trans)
    then show ?thesis by simp
  qed
qed

lemma no_stroke_split: "delim c \<Longrightarrow> no_stroke (a @ c # b) \<longleftrightarrow> no_stroke a \<and> no_stroke b"
  by (simp add: no_stroke_def delim_def sublist_split del: set_simps)

lemma no_stroke_Nil [simp]: "no_stroke []"
  by (simp add: no_stroke_def)

lemma sealed_Nil [simp]: "sealed []"
  by (simp add: sealed_def)

lemma no_stroke_Cons: "delim c \<Longrightarrow> no_stroke (c # s) \<longleftrightarrow> no_stroke s"
  using no_stroke_split [of c "[]" s] by simp

lemma no_stroke_snoc: "delim c \<Longrightarrow> no_stroke (s @ [c]) \<longleftrightarrow> no_stroke s"
  using no_stroke_split [of c s "[]"] by simp

lemma no_stroke_sealed_append: "sealed a \<Longrightarrow> no_stroke b \<Longrightarrow> no_stroke (a @ b)"
proof (cases a rule: rev_cases)
  case Nil
  then show "no_stroke b \<Longrightarrow> no_stroke (a @ b)" by simp
next
  case (snoc a' c)
  assume "sealed a" "no_stroke b"
  then have "delim c" "no_stroke a'"
    using no_stroke_snoc [of c a'] by (auto simp: sealed_def snoc)
  then show "no_stroke (a @ b)"
    using \<open>no_stroke b\<close> no_stroke_split [of c a' b] by (simp add: snoc)
qed

lemma no_stroke_append_opened: "no_stroke a \<Longrightarrow> opened b \<Longrightarrow> no_stroke (a @ b)"
proof (cases b)
  case Nil
  then show "no_stroke a \<Longrightarrow> opened b \<Longrightarrow> no_stroke (a @ b)" by (simp add: opened_def)
next
  case (Cons c b')
  assume "no_stroke a" "opened b"
  then have "delim c" "no_stroke b'"
    using no_stroke_Cons [of c b'] by (auto simp: opened_def Cons)
  then show "no_stroke (a @ b)"
    using \<open>no_stroke a\<close> no_stroke_split [of c a b'] by (simp add: Cons)
qed

lemma sealed_append: "sealed a \<Longrightarrow> sealed b \<Longrightarrow> sealed (a @ b)"
  using no_stroke_sealed_append [of a b] by (cases "b = []") (auto simp: sealed_def)

lemma sealed_append_opened: "no_stroke a \<Longrightarrow> opened b \<Longrightarrow> sealed b \<Longrightarrow> sealed (a @ b)"
  using no_stroke_append_opened [of a b] by (auto simp: sealed_def opened_def)

lemma opened_append: "opened a \<Longrightarrow> sealed a \<Longrightarrow> no_stroke b \<Longrightarrow> opened (a @ b)"
  using no_stroke_sealed_append [of a b] by (auto simp: opened_def)

lemma sealed_no_stroke: "sealed s \<Longrightarrow> no_stroke s"
  by (simp add: sealed_def)

lemma sealed_concat: "list_all sealed xs \<Longrightarrow> sealed (concat xs)"
  by (induction xs) (simp_all add: sealed_append)

lemmas literal = no_stroke_def sealed_def opened_def delim_def sublist_Cons_right

lemma literals:
  "no_stroke ''id''"
  "no_stroke ''cx''"
  "no_stroke ''cy''"
  "no_stroke ''r''"
  "no_stroke ''rx''"
  "no_stroke ''ry''"
  "no_stroke ''x''"
  "no_stroke ''y''"
  "no_stroke ''width''"
  "no_stroke ''height''"
  "no_stroke ''x1''"
  "no_stroke ''y1''"
  "no_stroke ''x2''"
  "no_stroke ''y2''"
  "no_stroke ''fill''"
  "no_stroke ''fill-opacity''"
  "no_stroke ''style''"
  "no_stroke ''visibility''"
  "no_stroke ''hidden''"
  "no_stroke ''text-anchor''"
  "no_stroke ''start''"
  "no_stroke ''middle''"
  "no_stroke ''end''"
  "no_stroke ''dominant-baseline''"
  "no_stroke ''text-bottom''"
  "no_stroke ''alphabetic''"
  "no_stroke ''ideographic''"
  "no_stroke ''central''"
  "no_stroke ''mathematical''"
  "no_stroke ''hanging''"
  "no_stroke ''text-top''"
  "no_stroke ''font-size''"
  "no_stroke ''font-family''"
  "no_stroke ''none''"
  "no_stroke ''circle''"
  "no_stroke ''ellipse''"
  "no_stroke ''rect''"
  "no_stroke ''line''"
  "no_stroke ''polygon''"
  "no_stroke ''path''"
  "no_stroke ''polyline''"
  "no_stroke ''text''"
  "no_stroke ''marker-start''"
  "no_stroke ''marker-mid''"
  "no_stroke ''marker-end''"
  by (simp_all add: no_stroke_def sublist_Cons_right)

lemma sealed_literals:
  \<open>sealed '' ''\<close> \<open>opened '' ''\<close> \<open>sealed ''" ''\<close> \<open>opened ''" ''\<close>
  \<open>sealed '',''\<close> \<open>opened '',''\<close> \<open>sealed ''rgb(''\<close> \<open>sealed '')''\<close>
  \<open>sealed ''="url(#''\<close> \<open>opened ''="url(#''\<close> \<open>sealed '')" ''\<close> \<open>opened '')" ''\<close>
  \<open>sealed ''points="''\<close> \<open>sealed ''d="''\<close> \<open>sealed ''M''\<close> \<open>sealed ''z ''\<close>
  \<open>sealed ''fill-rule="evenodd" ''\<close> \<open>sealed ''>''\<close> \<open>sealed ''<''\<close> \<open>sealed tab\<close> \<open>sealed nl\<close>
  by (simp_all add: literal tab_def nl_def)

lemma sealed_attribute:
  assumes "no_stroke n" "no_stroke (v @ u)"
  shows "sealed (attribute n v u)"
proof -
  have q: \<open>opened ''" ''\<close> \<open>sealed ''" ''\<close> \<open>sealed ''="''\<close> \<open>opened ''="''\<close>
    by (simp_all add: literal)
  have 1: \<open>sealed ((v @ u) @ ''" '')\<close>
    using assms(2) q(1) q(2) by (rule sealed_append_opened)
  have 2: \<open>sealed (''="'' @ (v @ u) @ ''" '')\<close>
    using q(3) 1 by (rule sealed_append)
  have 3: \<open>opened (''="'' @ (v @ u) @ ''" '')\<close>
    using q(4) q(3) by (rule opened_append) (use 1 in \<open>simp add: sealed_def\<close>)
  have \<open>sealed (n @ ''="'' @ (v @ u) @ ''" '')\<close>
    using assms(1) 3 2 by (rule sealed_append_opened)
  then show ?thesis by (simp add: attribute_def)
qed

lemma sealed_attribute0: "no_stroke n \<Longrightarrow> no_stroke v \<Longrightarrow> sealed (attribute n v [])"
  using sealed_attribute [of n v "[]"] by simp


lemma no_stroke_delims: "list_all delim s \<Longrightarrow> no_stroke s"
  by (induction s) (simp_all add: no_stroke_Cons)

lemma sealed_delims: "list_all delim s \<Longrightarrow> sealed s"
  using no_stroke_delims [of s] by (cases s rule: rev_cases) (auto simp: sealed_def)

lemma delim_digit_char: "d < 10 \<Longrightarrow> delim (digit_char d)"
proof -
  assume "d < 10"
  then have "d = 0 \<or> d = 1 \<or> d = 2 \<or> d = 3 \<or> d = 4 \<or> d = 5 \<or> d = 6 \<or> d = 7 \<or> d = 8 \<or> d = 9"
    by arith
  then show ?thesis by (auto simp: digit_char_def delim_def)
qed

lemma delims_show_nat: "list_all delim (show_nat n)"
proof (induction n rule: show_nat.induct)
  case (1 n)
  show ?case
  proof (cases "n < 10")
    case True
    then show ?thesis by (subst show_nat.simps) (simp add: delim_digit_char)
  next
    case False
    then show ?thesis using 1 by (subst show_nat.simps) (simp add: delim_digit_char)
  qed
qed

lemma delims_show_int: "list_all delim (show_int i)"
  by (simp add: show_int_def delims_show_nat) (simp add: delim_def)

lemma fmt_clean_integral: "fmt_clean fmt_integral"
  by (simp add: fmt_clean_def fmt_integral_def no_stroke_delims delims_show_int)

lemma no_stroke_Color_toString: "no_stroke (Color_toString c)"
proof (cases "transparent c")
  case True
  then show ?thesis by (simp add: Color_toString_def literals)
next
  case False
  have "sealed (''rgb('' @ show_int (red c) @ '','' @ show_int (green c) @ '','' @ show_int (blue c)
           @ '')'')"
    by (intro sealed_append sealed_literals sealed_delims delims_show_int)
  then show ?thesis using False by (simp add: Color_toString_def sealed_def)
qed

lemma sealed_serializeId: "no_stroke i \<Longrightarrow> sealed (serializeId i)"
  by (simp add: serializeId_def sealed_attribute0 literals)

lemma sealed_elemStart: "no_stroke n \<Longrightarrow> sealed (elemStart n False)"
proof -
  assume n: "no_stroke n"
  have "sealed (n @ '' '')"
    using n by (rule sealed_append_opened) (simp_all add: sealed_literals)
  moreover have "sealed (tab @ ''<'')" by (simp add: sealed_append sealed_literals)
  ultimately have "sealed ((tab @ ''<'') @ n @ '' '')" by (rule sealed_append [rotated])
  then show ?thesis by (simp add: elemStart_def)
qed

lemma sealed_emptyElemEnd: "sealed emptyElemEnd"
  by (simp add: emptyElemEnd_def nl_def literal)

lemma elemEnd_text: "sealed (elemEnd ''text'')" "opened (elemEnd ''text'')"
  by (simp_all add: elemEnd_def nl_def literal)

lemma sealed_Fill_toString: "fmt_clean f \<Longrightarrow> sealed (Fill_toString f fl l)"
  by (simp add: Fill_toString_def sealed_append sealed_attribute0 no_stroke_Color_toString
      fmt_clean_def literals)

lemma sealed_Shape_toString:
  "stroke_width (stroke b) < 0 \<Longrightarrow> no_stroke (style b) \<Longrightarrow> sealed (Shape_toString f b l)"
  by (simp add: Shape_toString_def Stroke_toString_def sealed_append sealed_attribute0 literals)

lemma sealed_SurfaceShape_toString:
  "fmt_clean f \<Longrightarrow> stroke_width (stroke b) < 0 \<Longrightarrow> no_stroke (style b) \<Longrightarrow>
     sealed (SurfaceShape_toString f b fl l)"
  by (simp add: SurfaceShape_toString_def sealed_append sealed_Shape_toString sealed_Fill_toString)

lemma sealed_Font_toString: "fmt_clean f \<Longrightarrow> no_stroke (family fn) \<Longrightarrow> sealed (Font_toString f fn l)"
  by (simp add: Font_toString_def sealed_append sealed_attribute0 fmt_clean_def literals)

lemma sealed_marker_ref:
  assumes "no_stroke name" "no_stroke (marker_option_id mo)"
  shows "sealed (marker_ref name mo)"
proof (cases mo)
  case None
  then show ?thesis by (simp add: marker_ref_def)
next
  case (Some m)
  have i: "no_stroke (getId m)" using assms(2) by (simp add: Some marker_option_id_def)
  have 1: \<open>sealed (getId m @ '')" '')\<close>
    using i by (rule sealed_append_opened) (simp_all add: sealed_literals)
  have 2: \<open>sealed (''="url(#'' @ getId m @ '')" '')\<close>
    by (rule sealed_append [OF _ 1]) (simp add: sealed_literals)
  have 3: \<open>opened (''="url(#'' @ getId m @ '')" '')\<close>
    by (rule opened_append) (simp_all add: sealed_literals sealed_no_stroke [OF 1])
  have \<open>sealed (name @ ''="url(#'' @ getId m @ '')" '')\<close>
    using assms(1) 3 2 by (rule sealed_append_opened)
  then show ?thesis by (simp add: marker_ref_def Some)
qed

lemma sealed_Markerable_toString:
  "list_all no_stroke (marker_ids m) \<Longrightarrow> sealed (Markerable_toString m)"
  by (cases m) (simp add: sealed_append sealed_marker_ref literals)

lemma sealed_point_string: "fmt_clean f \<Longrightarrow> sealed (point_string f l p)"
proof -
  assume f: "fmt_clean f"
  have 1: "sealed (f (translateY (py p) l) @ '' '')"
    by (rule sealed_append_opened) (use f in \<open>simp_all add: fmt_clean_def sealed_literals\<close>)
  have 2: "sealed ('','' @ f (translateY (py p) l) @ '' '')"
    by (rule sealed_append [OF _ 1]) (simp add: sealed_literals)
  have 3: "opened ('','' @ f (translateY (py p) l) @ '' '')"
    by (rule opened_append) (simp_all add: sealed_literals sealed_no_stroke [OF 1])
  have "sealed (f (translateX (px p) l) @ '','' @ f (translateY (py p) l) @ '' '')"
    by (rule sealed_append_opened [OF _ 3 2]) (use f in \<open>simp add: fmt_clean_def\<close>)
  then show ?thesis by (simp add: point_string_def)
qed

lemma sealed_points_string: "fmt_clean f \<Longrightarrow> sealed (points_string f l pts)"
  unfolding points_string_def
  by (rule sealed_concat) (simp add: list_all_iff sealed_point_string)


lemma fmt_cleanD: "fmt_clean f \<Longrightarrow> no_stroke (f x)"
  by (simp add: fmt_clean_def)

lemmas sealed_pieces = fmt_cleanD
  sealed_append sealed_elemStart sealed_serializeId sealed_attribute0
  sealed_SurfaceShape_toString sealed_Shape_toString sealed_emptyElemEnd sealed_points_string
  sealed_Markerable_toString sealed_Font_toString sealed_literals literals

lemma sealed_Circle_toString:
  "fmt_clean f \<Longrightarrow> stroke_width (stroke b) < 0 \<Longrightarrow> no_stroke (ident b) \<Longrightarrow> no_stroke (style b) \<Longrightarrow>
     sealed (Circle_toString f b fl c r l)"
  by (simp add: Circle_toString_def sealed_pieces)

lemma sealed_Elipse_toString:
  "fmt_clean f \<Longrightarrow> stroke_width (stroke b) < 0 \<Longrightarrow> no_stroke (ident b) \<Longrightarrow> no_stroke (style b) \<Longrightarrow>
     sealed (Elipse_toString f b fl c rw rh l)"
  by (simp add: Elipse_toString_def sealed_pieces)

lemma sealed_Rectangle_toString:
  "fmt_clean f \<Longrightarrow> stroke_width (stroke b) < 0 \<Longrightarrow> no_stroke (ident b) \<Longrightarrow> no_stroke (style b) \<Longrightarrow>
     sealed (Rectangle_toString f b fl e w h rx ry l)"
  by (simp add: Rectangle_toString_def sealed_pieces)

lemma sealed_Line_toString:
  "fmt_clean f \<Longrightarrow> stroke_width (stroke b) < 0 \<Longrightarrow> no_stroke (ident b) \<Longrightarrow> no_stroke (style b) \<Longrightarrow>
   list_all no_stroke (marker_ids m) \<Longrightarrow>
     sealed (Line_toString f b m p1 p2 l)"
  by (simp add: Line_toString_def sealed_pieces)

lemma sealed_Polygon_toString:
  "fmt_clean f \<Longrightarrow> stroke_width (stroke b) < 0 \<Longrightarrow> no_stroke (ident b) \<Longrightarrow> no_stroke (style b) \<Longrightarrow>
     sealed (Polygon_toString f b fl pts l)"
  unfolding Polygon_toString_def
  by (intro sealed_append) (simp_all add: sealed_pieces)

lemma sealed_subpath_string: "fmt_clean f \<Longrightarrow> sealed (subpath_string f l sub)"
proof (cases "sub = []")
  case True
  then show ?thesis by (simp add: subpath_string_def)
next
  case False
  assume "fmt_clean f"
  then have "sealed (''M'' @ points_string f l sub @ ''z '')"
    by (intro sealed_append) (simp_all add: sealed_pieces)
  then show ?thesis using False by (simp add: subpath_string_def)
qed

lemma sealed_Path_toString:
  "fmt_clean f \<Longrightarrow> stroke_width (stroke b) < 0 \<Longrightarrow> no_stroke (ident b) \<Longrightarrow> no_stroke (style b) \<Longrightarrow>
     sealed (Path_toString f b fl paths l)"
  unfolding Path_toString_def
  by (intro sealed_append sealed_concat)
     (simp_all add: sealed_pieces list_all_iff sealed_subpath_string)

lemma sealed_Polyline_toString:
  "fmt_clean f \<Longrightarrow> stroke_width (stroke (polyline_base pl)) < 0 \<Longrightarrow>
   list_all no_stroke (polyline_texts pl) \<Longrightarrow> sealed (Polyline_toString f pl l)"
proof (cases pl)
  case (Polyline b m pts)
  assume "fmt_clean f" "stroke_width (stroke (polyline_base pl)) < 0"
    "list_all no_stroke (polyline_texts pl)"
  then show ?thesis
    unfolding Polyline Polyline_toString.simps
    by (intro sealed_append) (simp_all add: sealed_pieces)
qed

lemma sealed_anchor_string: "sealed (anchor_string a)"
  by (cases a) (simp_all add: sealed_pieces)

lemma sealed_baseline_string: "sealed (baseline_string bl)"
  by (cases bl) (simp_all add: sealed_pieces)

lemma sealed_gt: "sealed ''>''"
  by (rule sealed_literals)

lemma sealed_Text_toString:
  assumes "fmt_clean f" "stroke_width (stroke b) < 0" "no_stroke (ident b)" "no_stroke (style b)"
    "no_stroke content" "no_stroke (family fn)"
  shows "sealed (Text_toString f b fl orig content fn a bl l)"
proof -
  let ?head = "elemStart ''text'' False @ serializeId (ident b)
     @ anchor_string a @ baseline_string bl
     @ attribute ''x'' (f (translateX (px orig) l)) []
     @ attribute ''y'' (f (translateY (py orig) l)) []
     @ SurfaceShape_toString f b fl l @ Font_toString f fn l"
  have "sealed (content @ elemEnd ''text'')"
    using assms(5) elemEnd_text(2) elemEnd_text(1) by (rule sealed_append_opened)
  then have tail: "sealed (''>'' @ content @ elemEnd ''text'')"
    by (rule sealed_append [OF sealed_gt])
  have head: "sealed ?head"
    using assms
    by (intro sealed_append)
       (simp_all add: sealed_pieces sealed_anchor_string sealed_baseline_string)
  have "Text_toString f b fl orig content fn a bl l = ?head @ ''>'' @ content @ elemEnd ''text''"
    by (simp add: Text_toString_def)
  then show ?thesis using sealed_append [OF head tail] by simp
qed

lemma concat_results_sealed:
  "concat_results rs = Inr out \<Longrightarrow> list_all (\<lambda>r. case r of Inl e \<Rightarrow> True | Inr s \<Rightarrow> sealed s) rs \<Longrightarrow>
     sealed out"
  by (induction rs arbitrary: out rule: concat_results.induct)
     (auto simp: sealed_append split: sum.splits)

lemma polyline_texts_offset: "polyline_texts (Polyline_offset d pl) = polyline_texts pl"
  by (cases pl) simp

lemma polyline_base_offset: "polyline_base (Polyline_offset d pl) = polyline_base pl"
  by (cases pl) simp

lemma sealed_vertex:
  "fmt_clean f \<Longrightarrow> sealed (Circle_shape_toString f l (vertex_circle dims p))"
  by (simp add: vertex_circle_def new_Circle_def sealed_Circle_toString Shape_def Stroke_default_def)

lemma sealed_polylineToString:
  assumes "fmt_clean f" "stroke_width (stroke (polyline_base pl)) < 0"
    "list_all no_stroke (polyline_texts pl)"
  shows "case polylineToString f margin pls pl l of Inl e \<Rightarrow> True | Inr s \<Rightarrow> sealed s"
proof -
  let ?sh = "Polyline_offset (Point (width margin) (height margin)) pl"
  have 1: "sealed (Polyline_toString f ?sh l)"
    using assms by (simp add: sealed_Polyline_toString polyline_texts_offset polyline_base_offset)
  have 2: "sealed (concat (map (Circle_shape_toString f l) (map (vertex_circle dims) (points ?sh))))"
    for dims
    by (rule sealed_concat) (simp add: list_all_iff sealed_vertex assms(1))
  show ?thesis
    using 1 2 by (simp add: polylineToString_def Let_def sealed_append split: sum.splits option.splits)
qed

lemma sealed_axisString:
  assumes "fmt_clean f" "stroke_width axis < 0"
  shows "case axisString f axis margin pls l of Inl e \<Rightarrow> True | Inr s \<Rightarrow> sealed s"
  using assms
  by (simp add: axisString_def Let_def new_Polyline_def Shape_def Markerable_default_def
      sealed_Polyline_toString marker_option_id_def del: Polyline_toString.simps
      split: sum.splits option.splits)

lemma sealed_LineChart_toString:
  assumes "fmt_clean f" "stroke_width axis < 0"
    "list_all (\<lambda>pl. stroke_width (stroke (polyline_base pl)) < 0) pls"
    "list_all no_stroke (concat (map polyline_texts pls))"
    "LineChart_toString f axis margin pls l = Inr out"
  shows "sealed out"
proof (cases "pls = []")
  case True
  then show ?thesis using assms(5) by (simp add: LineChart_toString_def)
next
  case False
  have "list_all (\<lambda>r. case r of Inl e \<Rightarrow> True | Inr s \<Rightarrow> sealed s)
          (map (\<lambda>pl. polylineToString f margin pls pl l) pls @ [axisString f axis margin pls l])"
    using assms(3,4) sealed_polylineToString [OF assms(1)] sealed_axisString [OF assms(1,2)]
    by (simp add: list_all_iff)
  moreover have "concat_results
      (map (\<lambda>pl. polylineToString f margin pls pl l) pls @ [axisString f axis margin pls l]) = Inr out"
    using assms(5) False by (simp add: LineChart_toString_def)
  ultimately show ?thesis by (rule concat_results_sealed [rotated])
qed

lemma toString_no_stroke:
  assumes "fmt_clean f" "list_all no_stroke (written_texts s)"
    "list_all (\<lambda>st. stroke_width st < 0) (written_strokes s)" "toString f s l = Inr out"
  shows "sealed out"
proof (cases s)
  case (LineChart b axis margin pls)
  show ?thesis
    using assms sealed_LineChart_toString [of f axis pls margin l out]
    by (simp add: LineChart list_all_iff)
qed (use assms in \<open>auto simp: sealed_Circle_toString sealed_Elipse_toString
      sealed_Rectangle_toString sealed_Line_toString sealed_Polygon_toString sealed_Path_toString
      sealed_Polyline_toString sealed_Text_toString\<close>)


text \<open>
  C4, as the code has it. A stroke of negative width serializes to the empty string,
  so that \<^verbatim>\<open>Shape::toString\<close> contributes the style and visibility attributes only.
  For every shape whose written strokes all have negative width, the serialization
  contains no occurrence of "stroke", provided the strings given by the caller and
  the printed numbers contain none. For every variant but \<open>LineChart\<close> the written
  stroke is the stroke of the shape.
\<close>

theorem negative_stroke_not_written:
  "(stroke_width st < 0 \<longrightarrow>
      Stroke_toString f st l = []
      \<and> Shape_toString f (b\<lparr>stroke := st\<rparr>) l =
          (if style b \<noteq> [] then attribute ''style'' (style b) [] else [])
          @ (if \<not> visible b then attribute ''visibility'' ''hidden'' [] else []))
   \<and> (fmt_clean f \<and> list_all no_stroke (written_texts s)
        \<and> list_all (\<lambda>st. stroke_width st < 0) (written_strokes s)
        \<and> toString f s l = Inr out \<longrightarrow> no_stroke out)
   \<and> (\<not> is_LineChart s \<longrightarrow> written_strokes s = [getStroke s])"
proof -
  have 1: "written_strokes s = [getStroke s]" if "\<not> is_LineChart s"
    using that by (cases s) (simp_all add: getStroke_def)
  have 2: "no_stroke out"
    if "fmt_clean f" "list_all no_stroke (written_texts s)"
      "list_all (\<lambda>st. stroke_width st < 0) (written_strokes s)" "toString f s l = Inr out"
    using toString_no_stroke [OF that] by (rule sealed_no_stroke)
  show ?thesis
    using 1 2 by (simp add: Stroke_toString_def Shape_toString_def)
qed

theorem negative_stroke_not_written_witness:
  "stroke_width Stroke_default < 0
   \<and> Stroke_toString fmt_integral Stroke_default Layout_default = []
   \<and> fmt_clean fmt_integral
   \<and> list_all no_stroke (written_texts red_dot)
   \<and> list_all (\<lambda>st. stroke_width st < 0) (written_strokes red_dot)
   \<and> \<not> is_LineChart red_dot
   \<and> no_stroke (Circle_toString fmt_integral (Shape Stroke_default) (Fill (Color Red) 1)
         (Point 5 5) 5 Layout_default)"
  using negative_stroke_not_written
          [of Stroke_default fmt_integral Layout_default "Shape Stroke_default" red_dot
              "Circle_toString fmt_integral (Shape Stroke_default) (Fill (Color Red) 1)
                 (Point 5 5) 5 Layout_default"]
        fmt_clean_integral
  by (simp add: red_dot_def new_Circle_def Shape_def Stroke_default_def)

text \<open>
  C4 as stated fails for a \<open>LineChart\<close>: the chart carries the default stroke of width
  -1, which it never writes, and its serialization has the stroke attributes of its
  axis.
\<close>

theorem linechart_axis_stroke_counterexample:
  \<open>stroke_width (getStroke single_point_chart) < 0
   \<and> toString fmt_integral single_point_chart Layout_default = Inr (
     tab @ ''<polyline fill="none" points="20,290 " />'' @ nl
   @ tab @ ''<circle cx="20" cy="290" r="0" fill="rgb(0,0,0)" />'' @ nl
   @ tab @ ''<polyline fill="none" points="0,300 0,300 0,300 " stroke-width="1" stroke="rgb(128,0,128)" stroke-dashoffset="0" />'' @ nl)
   \<and> \<not> no_stroke (
     tab @ ''<polyline fill="none" points="20,290 " />'' @ nl
   @ tab @ ''<circle cx="20" cy="290" r="0" fill="rgb(0,0,0)" />'' @ nl
   @ tab @ ''<polyline fill="none" points="0,300 0,300 0,300 " stroke-width="1" stroke="rgb(128,0,128)" stroke-dashoffset="0" />'' @ nl)\<close>
proof -
  have a: "stroke_width (getStroke single_point_chart) < 0"
    by (simp add: single_point_chart_def new_LineChart_def new_Polyline_def getStroke_def
        Shape_def Stroke_default_def)
  have b: \<open>toString fmt_integral single_point_chart Layout_default = Inr (
     tab @ ''<polyline fill="none" points="20,290 " />'' @ nl
   @ tab @ ''<circle cx="20" cy="290" r="0" fill="rgb(0,0,0)" />'' @ nl
   @ tab @ ''<polyline fill="none" points="0,300 0,300 0,300 " stroke-width="1" stroke="rgb(128,0,128)" stroke-dashoffset="0" />'' @ nl)\<close>
    by code_simp
  have c: \<open>sublist ''stroke'' (
     tab @ ''<polyline fill="none" points="20,290 " />'' @ nl
   @ tab @ ''<circle cx="20" cy="290" r="0" fill="rgb(0,0,0)" />'' @ nl
   @ tab @ ''<polyline fill="none" points="0,300 0,300 0,300 " stroke-width="1" stroke="rgb(128,0,128)" stroke-dashoffset="0" />'' @ nl)\<close>
    by code_simp
  show ?thesis using a b c by (simp add: no_stroke_def)
qed

end
